theory Spec2Isabelle
  imports Complex_Main "HOL-Library.Log_Nat" "HOL-Library.Sublist"
begin

section \<open>The relay server\<close>

text \<open>
  \<open>server.js\<close> is an Express application with two JSON endpoints that relay to a
  generative-AI endpoint. It is embedded here in its two-stage form: the helpers
  \<open>generateCoreAssessment\<close> and \<open>getAiQuery\<close>, which takes the core assessment
  as its third argument, and the handlers of \<open>/api/generateReport\<close> and
  \<open>/api/handleChat\<close>. A request body has the types the interface gives it (frames
  with a numeric heading and a string zone, string fields, a floor that is a string or
  a number); what comes back from the generation endpoint is any JSON value. A string
  is a list of characters, and the program never looks inside one.
\<close>

section \<open>JavaScript numbers\<close>

text \<open>
  A JavaScript number is an IEEE-754 binary64 value. A finite one is a dyadic rational
  and is kept as its exact value; the two zeros are not told apart (the program never
  divides by a heading and prints \<open>-0\<close> like \<open>0\<close>). Every arithmetic result is
  rounded to the nearest binary64 value, ties to even, by \<open>fl\<close>.
\<close>

datatype jsnum = Fin rat | PInf | NInf | NaN

definition pow2 :: "int \<Rightarrow> rat" where
  "pow2 e = (if 0 \<le> e then 2 ^ nat e else 1 / 2 ^ nat (- e))"

definition pow10 :: "int \<Rightarrow> rat" where
  "pow10 e = (if 0 \<le> e then 10 ^ nat e else 1 / 10 ^ nat (- e))"

text \<open>\<open>ilog b q\<close> is the integer part of the base-\<open>b\<close> logarithm of a positive \<open>q\<close>.\<close>

definition ilog :: "nat \<Rightarrow> rat \<Rightarrow> int" where
  "ilog b q = (if 1 \<le> q then int (floorlog b (nat \<lfloor>q\<rfloor>)) - 1
               else - int (floorlog b (nat (\<lceil>1 / q\<rceil> - 1))))"

definition roundHalfEven :: "rat \<Rightarrow> int" where
  "roundHalfEven x =
     (let f = \<lfloor>x\<rfloor>; d = x - of_int f
      in if d < 1 / 2 then f else if 1 / 2 < d then f + 1
         else if even f then f else f + 1)"

text \<open>
  Rounding to binary64: 53 significant bits, least exponent \<open>-1022\<close> (below it the
  spacing stays \<open>2 ^ -1074\<close>), and a rounded magnitude of \<open>2 ^ 1024\<close> or more is
  an infinity.
\<close>

definition fl :: "rat \<Rightarrow> jsnum" where
  "fl q =
     (if q = 0 then Fin 0
      else let e = max (ilog 2 \<bar>q\<bar>) (- 1022);
               u = pow2 (e - 52);
               r = of_int (roundHalfEven (q / u)) * u
           in if pow2 1024 \<le> \<bar>r\<bar> then (if 0 < q then PInf else NInf) else Fin r)"

text \<open>The operator \<open>+\<close> on two numbers.\<close>

fun jsadd :: "jsnum \<Rightarrow> jsnum \<Rightarrow> jsnum" where
  "jsadd (Fin a) (Fin b) = fl (a + b)"
| "jsadd NaN _ = NaN"
| "jsadd _ NaN = NaN"
| "jsadd PInf NInf = NaN"
| "jsadd NInf PInf = NaN"
| "jsadd PInf _ = PInf"
| "jsadd _ PInf = PInf"
| "jsadd NInf _ = NInf"
| "jsadd _ NInf = NInf"

text \<open>
  The operator \<open>/\<close> with an array length as divisor: the divisor is a non-negative
  integer, and a zero divisor is \<open>+0\<close>.
\<close>

fun divLength :: "jsnum \<Rightarrow> nat \<Rightarrow> jsnum" where
  "divLength (Fin a) n =
     (if n = 0 then (if a = 0 then NaN else if 0 < a then PInf else NInf)
      else fl (a / of_nat n))"
| "divLength PInf n = PInf"
| "divLength NInf n = NInf"
| "divLength NaN n = NaN"

section \<open>Numbers as text\<close>

definition digitChar :: "nat \<Rightarrow> char" where
  "digitChar d = ''0123456789'' ! (d mod 10)"

fun decimal :: "nat \<Rightarrow> string" where
  "decimal n = (if n < 10 then [digitChar n] else decimal (n div 10) @ [digitChar (n mod 10)])"

declare decimal.simps [simp del]

text \<open>An integer-valued number below \<open>10 ^ 21\<close> in a template literal.\<close>

definition showInt :: "int \<Rightarrow> string" where
  "showInt i = (if i < 0 then ''-'' @ decimal (nat (- i)) else decimal (nat i))"

text \<open>
  \<open>Number::toString\<close> for a positive finite \<open>x\<close>: the least number \<open>k\<close> of digits
  with a \<open>k\<close>-digit integer \<open>s\<close> and an exponent \<open>n\<close> such that \<open>s * 10 ^ (n - k)\<close>
  rounds to \<open>x\<close>; among several \<open>s\<close> the one closest to \<open>x\<close>, the even one on a tie.
  \<open>n0\<close> is the number of integer digits of \<open>x\<close>.
\<close>

definition digitCands :: "rat \<Rightarrow> int \<Rightarrow> nat \<Rightarrow> int list" where
  "digitCands x n0 k =
     (let p = pow10 (n0 - int k); y = x / p
      in filter (\<lambda>s. fl (of_int s * p) = Fin x)
           (if \<lfloor>y\<rfloor> = \<lceil>y\<rceil> then [\<lfloor>y\<rfloor>] else [\<lfloor>y\<rfloor>, \<lceil>y\<rceil>]))"

fun pickClosest :: "rat \<Rightarrow> int list \<Rightarrow> int" where
  "pickClosest y [a, b] =
     (if \<bar>y - of_int a\<bar> < \<bar>y - of_int b\<bar> then a
      else if \<bar>y - of_int b\<bar> < \<bar>y - of_int a\<bar> then b
      else if even a then a else b)"
| "pickClosest y (a # _) = a"
| "pickClosest y [] = roundHalfEven y"

fun shortestFrom :: "rat \<Rightarrow> int \<Rightarrow> nat \<Rightarrow> nat \<Rightarrow> int \<times> nat" where
  "shortestFrom x n0 k 0 = (roundHalfEven (x / pow10 (n0 - int k)), k)"
| "shortestFrom x n0 k (Suc fuel) =
     (case digitCands x n0 k of
        [] \<Rightarrow> shortestFrom x n0 (Suc k) fuel
      | cs \<Rightarrow> (pickClosest (x / pow10 (n0 - int k)) cs, k))"

definition posToString :: "rat \<Rightarrow> string" where
  "posToString x =
     (let n0 = ilog 10 x + 1;
          (s0, k) = shortestFrom x n0 1 16;
          (s, n) = (if s0 = 10 ^ k then (s0 div 10, n0 + 1) else (s0, n0));
          ds = decimal (nat s)
      in if int k \<le> n \<and> n \<le> 21 then ds @ replicate (nat (n - int k)) CHR ''0''
         else if 0 < n \<and> n \<le> 21 then take (nat n) ds @ ''.'' @ drop (nat n) ds
         else if - 6 < n \<and> n \<le> 0 then ''0.'' @ replicate (nat (- n)) CHR ''0'' @ ds
         else let e = n - 1;
                  es = (if e < 0 then ''-'' else ''+'') @ decimal (nat \<bar>e\<bar>)
              in if k = 1 then ds @ ''e'' @ es
                 else take 1 ds @ ''.'' @ drop 1 ds @ ''e'' @ es)"

fun numToString :: "jsnum \<Rightarrow> string" where
  "numToString NaN = ''NaN''"
| "numToString PInf = ''Infinity''"
| "numToString NInf = ''-Infinity''"
| "numToString (Fin q) =
     (if q = 0 then ''0'' else if q < 0 then ''-'' @ posToString (- q) else posToString q)"

text \<open>
  \<open>Number.prototype.toFixed\<close> with \<open>f\<close> fraction digits (\<open>f\<close> at most 100): the
  integer \<open>n\<close> with \<open>n / 10 ^ f\<close> closest to the magnitude, the larger one of two.
\<close>

fun toFixed :: "nat \<Rightarrow> jsnum \<Rightarrow> string" where
  "toFixed f (Fin x) =
     (let s = (if x < 0 then ''-'' else '''');
          a = \<bar>x\<bar>
      in if 10 ^ 21 \<le> a then s @ numToString (Fin a)
         else let n = nat \<lfloor>a * 10 ^ f + 1 / 2\<rfloor>;
                  m = decimal n;
                  m' = (if length m \<le> f then replicate (f + 1 - length m) CHR ''0'' @ m else m);
                  k = length m'
              in s @ (if f = 0 then m else take (k - f) m' @ ''.'' @ drop (k - f) m'))"
| "toFixed f x = numToString x"

declare toFixed.simps [simp del]

section \<open>JSON values\<close>

text \<open>
  A value produced by \<open>JSON.parse\<close>, and \<open>undefined\<close>. An object is the list of its
  own properties, each key once.
\<close>

datatype jsval =
    Undefined
  | Null
  | Bool bool
  | Num jsnum
  | Str string
  | Arr "jsval list"
  | Obj "(string \<times> jsval) list"

text \<open>
  A thrown error with its \<open>message\<close>; the message of a \<open>TypeError\<close> raised by the
  engine is the engine's own text and is not modelled.
\<close>

datatype js_error = Error string | TypeError

fun nullish :: "jsval \<Rightarrow> bool" where
  "nullish Undefined = True"
| "nullish Null = True"
| "nullish _ = False"

fun truthy :: "jsval \<Rightarrow> bool" where
  "truthy Undefined = False"
| "truthy Null = False"
| "truthy (Bool b) = b"
| "truthy (Num n) = (n \<noteq> Fin 0 \<and> n \<noteq> NaN)"
| "truthy (Str s) = (s \<noteq> [])"
| "truthy (Arr _) = True"
| "truthy (Obj _) = True"

text \<open>The operator \<open>||\<close>.\<close>

definition orElse :: "jsval \<Rightarrow> jsval \<Rightarrow> jsval" where
  "orElse a b = (if truthy a then a else b)"

text \<open>\<open>Array.prototype.join\<close> on strings.\<close>

fun joinWith :: "string \<Rightarrow> string list \<Rightarrow> string" where
  "joinWith sep [] = []"
| "joinWith sep [x] = x"
| "joinWith sep (x # y # ys) = x @ sep @ joinWith sep (y # ys)"

text \<open>
  \<open>ToString\<close>, as a template literal applies it. An array is its elements joined by a
  comma, \<open>null\<close> and \<open>undefined\<close> elements empty. A parsed object has no callable
  \<open>toString\<close> of its own: with an own property of that name the conversion throws a
  \<open>TypeError\<close> (\<open>None\<close>), otherwise the inherited method answers.
\<close>

fun jsToString :: "jsval \<Rightarrow> string option" where
  "jsToString Undefined = Some ''undefined''"
| "jsToString Null = Some ''null''"
| "jsToString (Bool b) = Some (if b then ''true'' else ''false'')"
| "jsToString (Num n) = Some (numToString n)"
| "jsToString (Str s) = Some s"
| "jsToString (Arr xs) =
     map_option (joinWith '','')
       (those (map (\<lambda>x. if nullish x then Some [] else jsToString x) xs))"
| "jsToString (Obj kvs) =
     (if ''toString'' \<in> fst ` set kvs then None else Some ''[object Object]'')"

text \<open>
  The property reads of the program: \<open>.candidates\<close>, \<open>.content\<close>, \<open>.parts\<close>,
  \<open>.text\<close> and \<open>[0]\<close>. None of these names is inherited from a prototype.
\<close>

datatype propKey = Candidates | Content | Parts | TextProp | Index0

fun propName :: "propKey \<Rightarrow> string" where
  "propName Candidates = ''candidates''"
| "propName Content = ''content''"
| "propName Parts = ''parts''"
| "propName TextProp = ''text''"
| "propName Index0 = ''0''"

text \<open>Reading a property of a value that is neither \<open>null\<close> nor \<open>undefined\<close>.\<close>

fun getProp :: "jsval \<Rightarrow> propKey \<Rightarrow> jsval" where
  "getProp (Obj kvs) p = (case map_of kvs (propName p) of Some v \<Rightarrow> v | None \<Rightarrow> Undefined)"
| "getProp (Arr xs) Index0 = (case xs of [] \<Rightarrow> Undefined | x # _ \<Rightarrow> x)"
| "getProp (Str s) Index0 = (case s of [] \<Rightarrow> Undefined | c # _ \<Rightarrow> Str [c])"
| "getProp _ _ = Undefined"

text \<open>The optional chain \<open>v?.p\<close>.\<close>

definition optChain :: "jsval \<Rightarrow> propKey \<Rightarrow> jsval" where
  "optChain v p = (if nullish v then Undefined else getProp v p)"

text \<open>
  \<open>result.candidates?.[0]?.content?.parts?.[0]?.text\<close>: the first read is not
  optional and throws on \<open>null\<close>.
\<close>

definition extractText :: "jsval \<Rightarrow> js_error + jsval" where
  "extractText result =
     (if nullish result then Inl TypeError
      else Inr (optChain (optChain (optChain (optChain (optChain
             (getProp result Candidates) Index0) Content) Parts) Index0) TextProp))"

section \<open>Request data\<close>

record frame =
  imageData :: string
  heading :: jsnum
  zone :: string

datatype floorId = FloorStr string | FloorNum jsnum

record scanData =
  capturedFrames :: "frame list"
  currentRoomTag :: string
  roomLocationInHouse :: string
  floorNumber :: floorId
  holisticIssues :: string
  holisticSurroundings :: string

record reportBody =
  isDeepAnalysis :: bool
  scanData :: scanData

record chatBody =
  chatHistory :: jsval
  chatContextSummary :: string

text \<open>\<open>s || d\<close> for a string \<open>s\<close>, and for the floor, a string or a number.\<close>

definition strOr :: "string \<Rightarrow> string \<Rightarrow> string" where
  "strOr s d = (if s = [] then d else s)"

fun floorOr :: "floorId \<Rightarrow> string \<Rightarrow> string" where
  "floorOr (FloorStr s) d = (if s = [] then d else s)"
| "floorOr (FloorNum n) d = (if n = Fin 0 \<or> n = NaN then d else numToString n)"

section \<open>Prompt construction\<close>

text \<open>\<open>[...new Set(xs)]\<close>: a set keeps its elements in insertion order.\<close>

definition setAdd :: "'a list \<Rightarrow> 'a \<Rightarrow> 'a list" where
  "setAdd acc x = (if x \<in> set acc then acc else acc @ [x])"

definition newSet :: "'a list \<Rightarrow> 'a list" where
  "newSet xs = foldl setAdd [] xs"

definition avgHeading :: "scanData \<Rightarrow> jsnum" where
  "avgHeading sd =
     divLength (foldl (\<lambda>sum fr. jsadd sum (heading fr)) (Fin 0) (capturedFrames sd))
       (length (capturedFrames sd))"

definition vastuZonesObserved :: "scanData \<Rightarrow> string" where
  "vastuZonesObserved sd = joinWith '', '' (newSet (map zone (capturedFrames sd)))"

text \<open>The query of \<open>generateCoreAssessment\<close>, for the part list \<open>ps\<close> it is given.\<close>

definition coreQuery :: "scanData \<Rightarrow> 'a list \<Rightarrow> string" where
  \<open>coreQuery sd ps =
     ''\<newline>'' @
     ''        CRITICAL INSTRUCTION: You are a Vastu Analyst AI. Analyze the provided '' @ showInt (int (length ps) - 1) @ '' visual segments \<newline>'' @
     ''        and the following room context: Room: '' @ currentRoomTag sd @ '', Location: '' @ roomLocationInHouse sd @ '', \<newline>'' @
     ''        Concerns: '' @ holisticIssues sd @ ''.\<newline>'' @
     ''        \<newline>'' @
     ''        CRITICAL TASK: Your SOLE output must be a concise, bulleted list of the top 5 to 7 most severe Vastu defects found in this area.\<newline>'' @
     ''        Focus ONLY on factual defects (directional, elemental, positional) and use simple language.\<newline>'' @
     ''        \<newline>'' @
     ''        Start with the exact bold markdown title: \<newline>'' @
     ''        **Core Vastu Assessment (Defects Found)**\<newline>'' @
     ''        \<newline>'' @
     ''        Followed by a list using dashes (-). Do NOT include remedies.\<newline>'' @
     ''    ''\<close>

definition sharedContext :: "scanData \<Rightarrow> string \<Rightarrow> string" where
  \<open>sharedContext sd c =
     ''\<newline>'' @
     ''        CORE VASTU FINDINGS (MUST BE USED AS THE BASIS FOR ALL REMEDIES):\<newline>'' @
     ''        '' @ c @ ''\<newline>'' @
     ''        \<newline>'' @
     ''        CONTEXT FOR THIS REPORT:\<newline>'' @
     ''        - Area Scanned: '' @ currentRoomTag sd @ ''\<newline>'' @
     ''        - Location (C-Point): The '' @ currentRoomTag sd @ '' is in the '' @ strOr (roomLocationInHouse sd) ''UNKNOWN'' @ '' zone of the house.\<newline>'' @
     ''        - Floor: '' @ floorOr (floorNumber sd) ''N/A'' @ ''\<newline>'' @
     ''        - User's Concerns: '' @ holisticIssues sd @ ''\<newline>'' @
     ''        - Property Surroundings: '' @ holisticSurroundings sd @ ''\<newline>'' @
     ''        - Scan Data: Average Heading: '' @ toFixed 1 (avgHeading sd) @ '' degrees. Zones Covered: '' @ vastuZonesObserved sd @ ''.\<newline>'' @
     ''    ''\<close>

definition deepQuery :: "scanData \<Rightarrow> string \<Rightarrow> string" where
  \<open>deepQuery sd c =
     ''\<newline>'' @
     ''            CRITICAL INSTRUCTION: You are a Master Vastu Shastra Analyst AI, specializing in structural and permanent solutions.\<newline>'' @
     ''            Your task is to provide an EXPERT-LEVEL, STRUCTURAL Analysis based **EXCLUSIVELY** on the Core Vastu Findings provided below.\<newline>'' @
     ''            \<newline>'' @
     ''            '' @ sharedContext sd c @ ''\<newline>'' @
     ''            \<newline>'' @
     ''            CRITICAL TASK:\<newline>'' @
     ''            Do NOT write a full report. Provide a structural analysis focusing on the defects in the CORE VASTU FINDINGS.\<newline>'' @
     ''            \<newline>'' @
     ''            Start with this exact title (using bold markdown):\<newline>'' @
     ''            **Expert Analysis (Structural Recommendations)**\<newline>'' @
     ''            \<newline>'' @
     ''            Then, add this disclaimer on a new line:\<newline>'' @
     ''            "The following are high-stakes, structural remedies a professional consultant might suggest. These are major changes and should be considered carefully."\<newline>'' @
     ''            \<newline>'' @
     ''            Then, create two subsections, both using bullet points (using a dash "-"):\<newline>'' @
     ''            \<newline>'' @
     ''            **Minor Structural Recommendations**\<newline>'' @
     ''            (List minor demolition/construction remedies that address the core defects. e.g., "- Relocating the stove from the North to the South-East corner of the kitchen.")\<newline>'' @
     ''            \<newline>'' @
     ''            **Major Structural Recommendations**\<newline>'' @
     ''            (List high-stakes demolition/construction remedies that address the core defects. e.g., "- The kitchen's location is a severe defect. The ideal expert solution is to move this kitchen to the South-East zone.")\<newline>'' @
     ''            \<newline>'' @
     ''            Formatting: Use bullet points (using -). You MUST use **bold markdown** for the main title and two sub-section titles.\<newline>'' @
     ''        ''\<close>

definition standardQuery :: "scanData \<Rightarrow> string \<Rightarrow> string" where
  \<open>standardQuery sd c =
     ''\<newline>'' @
     ''            CRITICAL INSTRUCTION: You are a Master Vastu Shastra Analyst AI, specializing in non-structural, actionable remedies.\<newline>'' @
     ''            Your response must be a single, structured Vastu Report, following all instructions below exactly. Use the Core Vastu Findings to guide your report.\<newline>'' @
     ''            \<newline>'' @
     ''            '' @ sharedContext sd c @ ''\<newline>'' @
     ''\<newline>'' @
     ''            Based on ALL this data, provide a comprehensive report. Tailor your analysis and remedies in Section I and IV to address the user's primary concerns and the CORE VASTU FINDINGS.\<newline>'' @
     ''            \<newline>'' @
     ''            The report must be structured into FIVE consecutive sections. Use **bold markdown** for all section titles:\<newline>'' @
     ''\<newline>'' @
     ''            **I. Executive Summary (Layman's Terms)**: Simple summary. Cover the 2-3 most critical findings (from CORE ASSESSMENT) and non-structural remedies, linking them to the user's primary concerns (if provided).\<newline>'' @
     ''            Ensure you mention the Vastu Zone compliance of the scanned area ('' @ currentRoomTag sd @ '') based on its location ('' @ roomLocationInHouse sd @ '').\<newline>'' @
     ''\<newline>'' @
     ''            **II. Directional Data and Environmental Assessment**: Technical analysis of the observed headings and visual elements.\<newline>'' @
     ''\<newline>'' @
     ''            **III. Analysis of Vastu Compliance**: Technical findings, issues, and defects found, explicitly referencing the points in the CORE ASSESSMENT.\<newline>'' @
     ''\<newline>'' @
     ''            **IV. Remedial Recommendations (Advanced)**: CRITICAL: This section MUST use bullet points (using a dash "-"). Structure this section into two sub-sections using **bold markdown**. All remedies must be NON-STRUCTURAL (no construction or demolition suggested):\<newline>'' @
     ''            **Minor Defects & Remedies**\<newline>'' @
     ''            (List non-structural remedies here, like placing plants, changing colors, or adding mirrors.)\<newline>'' @
     ''            **Major Defects & Remedies**\<newline>'' @
     ''            (List more significant NON-STRUCTURAL remedies here, like moving heavy furniture or changing bed positions.)\<newline>'' @
     ''            \<newline>'' @
     ''            **V. Vastu Tips & Remedies (Actionable Advice)**: A short, separate section offering quick, general Vastu tips related to this specific room type.\<newline>'' @
     ''\<newline>'' @
     ''            Formatting requirements: Use paragraph breaks for readability. You MUST use bullet points (using -). You MUST use **bold markdown** for all section and sub-section titles.\<newline>'' @
     ''        ''\<close>

text \<open>
  \<open>getAiQuery\<close>: the core assessment is whatever the first call returned, and is
  converted to text where the template interpolates it.
\<close>

definition getAiQuery :: "scanData \<Rightarrow> bool \<Rightarrow> jsval \<Rightarrow> js_error + string" where
  "getAiQuery sd deep coreAssessment =
     (case jsToString coreAssessment of
        None \<Rightarrow> Inl TypeError
      | Some c \<Rightarrow> Inr (if deep then deepQuery sd c else standardQuery sd c))"

section \<open>The generation endpoint\<close>

datatype part = InlineData string string | Text string

record content =
  role :: string
  parts :: "part list"

datatype contents = Turns "content list" | History jsval

record payload =
  contents :: contents
  safetySettings :: "(string \<times> string) list option"
  systemInstruction :: "part list option"

record request =
  url :: string
  httpMethod :: string
  contentType :: string
  body :: payload

text \<open>
  What \<open>fetch\<close> gives back: a rejection, or a response with its status, its body as
  text (\<open>response.text()\<close>) and its body parsed (\<open>response.json()\<close>), each of which
  can fail. The transport is a function of the state of the outside world.
\<close>

record response =
  status :: nat
  bodyText :: "js_error + string"
  bodyJson :: "js_error + jsval"

datatype fetchResult = Rejected js_error | Responded response

type_synonym 'w fetch = "'w \<Rightarrow> request \<Rightarrow> fetchResult \<times> 'w"

definition ok :: "response \<Rightarrow> bool" where
  "ok r = (200 \<le> status r \<and> status r \<le> 299)"

record config =
  GEMINI_API_KEY :: "string option"

definition MODEL_NAME :: string where
  "MODEL_NAME = ''gemini-2.5-flash''"

text \<open>\<open>!GEMINI_API_KEY\<close> holds for an unset variable and for an empty one.\<close>

definition keyMissing :: "config \<Rightarrow> bool" where
  "keyMissing cfg = (case GEMINI_API_KEY cfg of None \<Rightarrow> True | Some k \<Rightarrow> k = [])"

definition apiUrl :: "config \<Rightarrow> string" where
  "apiUrl cfg =
     ''https://generativelanguage.googleapis.com/v1beta/models/'' @ MODEL_NAME @
     '':generateContent?key='' @
     (case GEMINI_API_KEY cfg of None \<Rightarrow> ''undefined'' | Some k \<Rightarrow> k)"

definition blockNone :: "(string \<times> string) list" where
  "blockNone =
     [(''HARM_CATEGORY_HARASSMENT'', ''BLOCK_NONE''),
      (''HARM_CATEGORY_HATE_SPEECH'', ''BLOCK_NONE''),
      (''HARM_CATEGORY_SEXUALLY_EXPLICIT'', ''BLOCK_NONE''),
      (''HARM_CATEGORY_DANGEROUS_CONTENT'', ''BLOCK_NONE'')]"

definition post :: "config \<Rightarrow> payload \<Rightarrow> request" where
  "post cfg p =
     \<lparr>url = apiUrl cfg, httpMethod = ''POST'', contentType = ''application/json'', body = p\<rparr>"

section \<open>The report handler's part list\<close>

definition frameMarker :: "nat \<Rightarrow> frame \<Rightarrow> string" where
  \<open>frameMarker index fr =
     ''--- Visual Data Segment '' @ decimal (index + 1) @ '' Captured at Heading '' @ toFixed 1 (heading fr) @ '' degrees (Vastu Zone: '' @ zone fr @ '') ---''\<close>

text \<open>
  The body of the \<open>forEach\<close> over the captured frames: two pushes onto \<open>parts\<close>, for
  the frame \<open>fr\<close> at position \<open>index\<close>.
\<close>

definition pushFrame :: "part list \<Rightarrow> nat \<times> frame \<Rightarrow> part list" where
  "pushFrame ps ifr =
     (case ifr of (index, fr) \<Rightarrow>
        (ps @ [InlineData ''image/jpeg'' (imageData fr)]) @ [Text (frameMarker index fr)])"

definition frameParts :: "frame list \<Rightarrow> part list" where
  "frameParts frames = foldl pushFrame [] (enumerate 0 frames)"

section \<open>Calling the model\<close>

text \<open>
  The sequence each call site repeats: \<open>fetch\<close>, the check of \<open>response.ok\<close> with
  its thrown error, \<open>response.json()\<close> and the read of the first candidate's text.
  The call sites differ in the prefix of the error message.
\<close>

definition callModel ::
  "'w fetch \<Rightarrow> string \<Rightarrow> 'w \<Rightarrow> request \<Rightarrow> (js_error + jsval) \<times> 'w" where
  "callModel fetch errPrefix w req =
     (case fetch w req of
        (Rejected e, w') \<Rightarrow> (Inl e, w')
      | (Responded r, w') \<Rightarrow>
          (if \<not> ok r then
             (case bodyText r of
                Inl e \<Rightarrow> (Inl e, w')
              | Inr errorText \<Rightarrow>
                  (Inl (Error (errPrefix @ decimal (status r) @ '' - '' @ errorText)), w'))
           else (case bodyJson r of
                   Inl e \<Rightarrow> (Inl e, w')
                 | Inr result \<Rightarrow> (extractText result, w'))))"

definition userPayload :: "part list \<Rightarrow> payload" where
  "userPayload ps =
     \<lparr>contents = Turns [\<lparr>role = ''user'', parts = ps\<rparr>],
      safetySettings = Some blockNone, systemInstruction = None\<rparr>"

definition corePlaceholder :: string where
  \<open>corePlaceholder =
     ''**Core Vastu Assessment (Defects Found)**\<newline>'' @
     ''- Assessment failed to generate. Please rescan.''\<close>

definition coreRequest :: "config \<Rightarrow> scanData \<Rightarrow> part list \<Rightarrow> request" where
  "coreRequest cfg sd ps = post cfg (userPayload (ps @ [Text (coreQuery sd ps)]))"

text \<open>
  A handler or helper returns its result, the outbound requests it issued, in order,
  and the state of the outside world afterwards.
\<close>

definition generateCoreAssessment ::
  "config \<Rightarrow> 'w fetch \<Rightarrow> 'w \<Rightarrow> scanData \<Rightarrow> part list
     \<Rightarrow> (js_error + jsval) \<times> request list \<times> 'w" where
  "generateCoreAssessment cfg fetch w sd ps =
     (if keyMissing cfg
      then (Inl (Error ''Server API Key is not configured for core assessment.''), [], w)
      else (case callModel fetch ''Google API Error (Core Assessment): '' w
                   (coreRequest cfg sd ps) of
              (Inl e, w') \<Rightarrow> (Inl e, [coreRequest cfg sd ps], w')
            | (Inr t, w') \<Rightarrow>
                (Inr (orElse t (Str corePlaceholder)), [coreRequest cfg sd ps], w')))"

section \<open>The two endpoints\<close>

datatype resBody = TextJson jsval | ErrorJson js_error

datatype httpResponse = HttpResponse nat resBody

definition finalReport :: "string \<Rightarrow> string \<Rightarrow> string" where
  \<open>finalReport c a =
     c @ ''\<newline>'' @
     ''\<newline>'' @
     ''---\<newline>'' @
     ''\<newline>'' @
     a\<close>

definition finalRequest :: "config \<Rightarrow> part list \<Rightarrow> string \<Rightarrow> request" where
  "finalRequest cfg ps userQuery = post cfg (userPayload (ps @ [Text userQuery]))"

definition generateReport ::
  "config \<Rightarrow> 'w fetch \<Rightarrow> 'w \<Rightarrow> reportBody \<Rightarrow> httpResponse \<times> request list \<times> 'w" where
  "generateReport cfg fetch w rb =
     (if keyMissing cfg
      then (HttpResponse 500 (ErrorJson (Error ''Server API Key is not configured.'')), [], w)
      else
        let sd = scanData rb;
            ps = frameParts (capturedFrames sd)
        in (case generateCoreAssessment cfg fetch w sd ps of
              (Inl e, calls, w1) \<Rightarrow> (HttpResponse 500 (ErrorJson e), calls, w1)
            | (Inr coreAssessment, calls, w1) \<Rightarrow>
                (case getAiQuery sd (isDeepAnalysis rb) coreAssessment of
                   Inl e \<Rightarrow> (HttpResponse 500 (ErrorJson e), calls, w1)
                 | Inr userQuery \<Rightarrow>
                     (case callModel fetch ''Google API Error: '' w1
                             (finalRequest cfg ps userQuery) of
                        (Inl e, w2) \<Rightarrow>
                          (HttpResponse 500 (ErrorJson e),
                           calls @ [finalRequest cfg ps userQuery], w2)
                      | (Inr t, w2) \<Rightarrow>
                          (case (jsToString coreAssessment, jsToString (orElse t (Str ''''))) of
                             (Some c, Some a) \<Rightarrow>
                               (HttpResponse 200 (TextJson (Str (finalReport c a))),
                                calls @ [finalRequest cfg ps userQuery], w2)
                           | _ \<Rightarrow>
                               (HttpResponse 500 (ErrorJson TypeError),
                                calls @ [finalRequest cfg ps userQuery], w2))))))"

definition chatSystemPrompt :: "chatBody \<Rightarrow> string" where
  \<open>chatSystemPrompt cb =
     ''You are a helpful and friendly Vastu Shastra AI assistant.\<newline>'' @
     ''        Your goal is to answer the user's questions. If the user asks a question about the Vastu analysis report, you MUST use the following context: --- REPORT CONTEXT START --- '' @ chatContextSummary cb @ '' --- REPORT CONTEXT END ---\<newline>'' @
     ''        If the user asks a general Vastu question, answer it concisely.\<newline>'' @
     ''        Keep your answers simple and friendly. You may use **bold markdown** for emphasis. For bulleted lists, you MUST use a dash (-) and NOT an asterisk (*).''\<close>

definition chatFallback :: string where
  \<open>chatFallback = ''Sorry, I couldn't process that query.''\<close>

definition chatRequest :: "config \<Rightarrow> chatBody \<Rightarrow> request" where
  "chatRequest cfg cb =
     post cfg
       \<lparr>contents = History (chatHistory cb), safetySettings = None,
        systemInstruction = Some [Text (chatSystemPrompt cb)]\<rparr>"

definition handleChat ::
  "config \<Rightarrow> 'w fetch \<Rightarrow> 'w \<Rightarrow> chatBody \<Rightarrow> httpResponse \<times> request list \<times> 'w" where
  "handleChat cfg fetch w cb =
     (if keyMissing cfg
      then (HttpResponse 500 (ErrorJson (Error ''Server API Key is not configured.'')), [], w)
      else (case callModel fetch ''Google API Error: '' w (chatRequest cfg cb) of
              (Inl e, w') \<Rightarrow> (HttpResponse 500 (ErrorJson e), [chatRequest cfg cb], w')
            | (Inr t, w') \<Rightarrow>
                (HttpResponse 200 (TextJson (orElse t (Str chatFallback))),
                 [chatRequest cfg cb], w')))"

section \<open>Sample requests and transports\<close>

text \<open>
  A well-formed reply of the generation endpoint carrying the text \<open>t\<close>, a success
  response around a parsed body, and transports whose state counts the calls made.
\<close>

definition geminiReply :: "string \<Rightarrow> jsval" where
  "geminiReply t =
     Obj [(''candidates'',
           Arr [Obj [(''content'', Obj [(''parts'', Arr [Obj [(''text'', Str t)]])])]])]"

definition jsonResponse :: "nat \<Rightarrow> jsval \<Rightarrow> response" where
  "jsonResponse st j = \<lparr>status = st, bodyText = Inr [], bodyJson = Inr j\<rparr>"

definition echoFetch :: "nat fetch" where
  "echoFetch n req =
     (Responded (jsonResponse 200
        (geminiReply (if n = 0 then ''CoreAssessmentMock'' else ''FinalMock''))), Suc n)"

definition constFetch :: "response \<Rightarrow> nat fetch" where
  "constFetch r n req = (Responded r, Suc n)"

definition sampleFrames :: "frame list" where
  "sampleFrames =
     [\<lparr>imageData = ''aGVsbG8='', heading = Fin 10, zone = ''North''\<rparr>,
      \<lparr>imageData = ''d29ybGQ='', heading = Fin 20, zone = ''South''\<rparr>,
      \<lparr>imageData = ''Zm9v'', heading = Fin 30, zone = ''North''\<rparr>]"

text \<open>
  Two frames with the headings 104.45 and 48.25, as \<open>JSON.parse\<close> reads them: the
  first is not a binary64 number and is rounded to the nearest one, the second is exact.
\<close>

definition roundingFrames :: "frame list" where
  "roundingFrames =
     [\<lparr>imageData = ''aGVsbG8='', heading = fl (10445 / 100), zone = ''East''\<rparr>,
      \<lparr>imageData = ''d29ybGQ='', heading = fl (193 / 4), zone = ''North-East''\<rparr>]"

definition sampleScan :: "frame list \<Rightarrow> scanData" where
  "sampleScan frames =
     \<lparr>capturedFrames = frames, currentRoomTag = ''Kitchen'',
      roomLocationInHouse = ''South-East'', floorNumber = FloorStr ''1'',
      holisticIssues = ''Poor sleep'', holisticSurroundings = ''Road to the east''\<rparr>"

definition sampleReport :: reportBody where
  "sampleReport = \<lparr>isDeepAnalysis = False, scanData = sampleScan sampleFrames\<rparr>"

definition sampleChat :: chatBody where
  "sampleChat = \<lparr>chatHistory = Arr [], chatContextSummary = ''Kitchen in the South-East''\<rparr>"

definition withKey :: config where
  "withKey = \<lparr>GEMINI_API_KEY = Some ''k''\<rparr>"

definition withoutKey :: config where
  "withoutKey = \<lparr>GEMINI_API_KEY = None\<rparr>"

definition failedResponse :: "nat \<Rightarrow> string \<Rightarrow> response" where
  "failedResponse st txt =
     \<lparr>status = st, bodyText = Inr txt, bodyJson = Inl (Error ''invalid json response body'')\<rparr>"

section \<open>Shapes of an upstream reply\<close>

text \<open>
  A success response whose parsed body carries the text \<open>t\<close> where the program reads
  it, and one whose parsed body can be read but has nothing truthy there.
\<close>

definition repliesText :: "response \<Rightarrow> string \<Rightarrow> bool" where
  "repliesText r t =
     (ok r \<and> (case bodyJson r of Inl _ \<Rightarrow> False | Inr j \<Rightarrow> extractText j = Inr (Str t)))"

definition lacksText :: "response \<Rightarrow> bool" where
  "lacksText r =
     (ok r \<and>
      (case bodyJson r of
         Inl _ \<Rightarrow> False
       | Inr j \<Rightarrow> (case extractText j of Inl _ \<Rightarrow> False | Inr v \<Rightarrow> \<not> truthy v)))"

section \<open>Reading a request back\<close>

text \<open>The part list a request to the generation endpoint carries for its one user turn.\<close>

definition requestParts :: "request \<Rightarrow> part list" where
  "requestParts req = (case contents (body req) of Turns [c] \<Rightarrow> parts c | _ \<Rightarrow> [])"

fun isImage :: "part \<Rightarrow> bool" where
  "isImage (InlineData _ _) = True"
| "isImage (Text _) = False"

text \<open>
  The distinct elements of a list in order of first appearance, as the specification
  words it: the head, then the same of the rest without the head.
\<close>

fun firstOccurrences :: "'a list \<Rightarrow> 'a list" where
  "firstOccurrences [] = []"
| "firstOccurrences (x # xs) = x # firstOccurrences (filter (\<lambda>y. y \<noteq> x) xs)"

section \<open>The section markers of the two templates\<close>

text \<open>
  The bold titles the standard template asks for, and those of the deep (structural)
  template.
\<close>

definition standardMarkers :: "string list" where
  \<open>standardMarkers =
     [''**I. Executive Summary (Layman's Terms)**'',
      ''**II. Directional Data and Environmental Assessment**'',
      ''**III. Analysis of Vastu Compliance**'',
      ''**IV. Remedial Recommendations (Advanced)**'',
      ''**V. Vastu Tips & Remedies (Actionable Advice)**'']\<close>

definition deepMarkers :: "string list" where
  \<open>deepMarkers =
     [''**Expert Analysis (Structural Recommendations)**'',
      ''**Minor Structural Recommendations**'',
      ''**Major Structural Recommendations**'']\<close>

text \<open>
  The texts a template takes from the request and from the first stage: the core
  assessment, the room tag, the location and the floor as shown, the concerns, the
  surroundings and the zones text. The standard template shows the location as given,
  too.
\<close>

definition deepInputs :: "scanData \<Rightarrow> string \<Rightarrow> string list" where
  "deepInputs sd c =
     [c, currentRoomTag sd, strOr (roomLocationInHouse sd) ''UNKNOWN'',
      floorOr (floorNumber sd) ''N/A'', holisticIssues sd, holisticSurroundings sd,
      vastuZonesObserved sd]"

definition standardInputs :: "scanData \<Rightarrow> string \<Rightarrow> string list" where
  "standardInputs sd c = deepInputs sd c @ [roomLocationInHouse sd]"

section \<open>Texts with gaps\<close>

text \<open>
  A template literal is a fixed text, then alternately an interpolated value and a
  fixed text: \<open>weave\<close> puts them together. Two lists are \<open>comparable\<close> when they
  agree as far as both go; a pattern \<open>touches\<close> a fixed text when, laid over it at
  some offset with at least one position in common, it agrees with it on all common
  positions.
\<close>

fun weave :: "'a list \<Rightarrow> ('a list \<times> 'a list) list \<Rightarrow> 'a list" where
  "weave l [] = l"
| "weave l ((v, l') # rest) = l @ v @ weave l' rest"

fun comparable :: "'a list \<Rightarrow> 'a list \<Rightarrow> bool" where
  "comparable [] ys = True"
| "comparable (x # xs) [] = True"
| "comparable (x # xs) (y # ys) = (if x = y then comparable xs ys else False)"

fun startsIn :: "'a list \<Rightarrow> 'a list \<Rightarrow> bool" where
  "startsIn m [] = False"
| "startsIn m (x # xs) = (if comparable m (x # xs) then True else startsIn m xs)"

definition touches :: "'a list \<Rightarrow> 'a list \<Rightarrow> bool" where
  "touches m l = (if startsIn m l then True else startsIn l (tl m))"

text \<open>
  The fixed text of each template, line by line and cut at every interpolation, the
  shared context included where the template has it.
\<close>

definition deepLines :: "string list" where
  \<open>deepLines =
     [''\<newline>'',
      ''            CRITICAL INSTRUCTION: You are a Master Vastu Shastra Analyst AI, specializing in structural and permanent solutions.\<newline>'',
      ''            Your task is to provide an EXPERT-LEVEL, STRUCTURAL Analysis based **EXCLUSIVELY** on the Core Vastu Findings provided below.\<newline>'',
      ''            \<newline>'',
      ''            \<newline>'',
      ''        CORE VASTU FINDINGS (MUST BE USED AS THE BASIS FOR ALL REMEDIES):\<newline>'',
      ''        '',
      ''\<newline>'',
      ''        \<newline>'',
      ''        CONTEXT FOR THIS REPORT:\<newline>'',
      ''        - Area Scanned: '',
      ''\<newline>'',
      ''        - Location (C-Point): The '',
      '' is in the '',
      '' zone of the house.\<newline>'',
      ''        - Floor: '',
      ''\<newline>'',
      ''        - User's Concerns: '',
      ''\<newline>'',
      ''        - Property Surroundings: '',
      ''\<newline>'',
      ''        - Scan Data: Average Heading: '',
      '' degrees. Zones Covered: '',
      ''.\<newline>'',
      ''    \<newline>'',
      ''            \<newline>'',
      ''            CRITICAL TASK:\<newline>'',
      ''            Do NOT write a full report. Provide a structural analysis focusing on the defects in the CORE VASTU FINDINGS.\<newline>'',
      ''            \<newline>'',
      ''            Start with this exact title (using bold markdown):\<newline>'',
      ''            **Expert Analysis (Structural Recommendations)**\<newline>'',
      ''            \<newline>'',
      ''            Then, add this disclaimer on a new line:\<newline>'',
      ''            "The following are high-stakes, structural remedies a professional consultant might suggest. These are major changes and should be considered carefully."\<newline>'',
      ''            \<newline>'',
      ''            Then, create two subsections, both using bullet points (using a dash "-"):\<newline>'',
      ''            \<newline>'',
      ''            **Minor Structural Recommendations**\<newline>'',
      ''            (List minor demolition/construction remedies that address the core defects. e.g., "- Relocating the stove from the North to the South-East corner of the kitchen.")\<newline>'',
      ''            \<newline>'',
      ''            **Major Structural Recommendations**\<newline>'',
      ''            (List high-stakes demolition/construction remedies that address the core defects. e.g., "- The kitchen's location is a severe defect. The ideal expert solution is to move this kitchen to the South-East zone.")\<newline>'',
      ''            \<newline>'',
      ''            Formatting: Use bullet points (using -). You MUST use **bold markdown** for the main title and two sub-section titles.\<newline>'',
      ''        '']\<close>

definition standardLines :: "string list" where
  \<open>standardLines =
     [''\<newline>'',
      ''            CRITICAL INSTRUCTION: You are a Master Vastu Shastra Analyst AI, specializing in non-structural, actionable remedies.\<newline>'',
      ''            Your response must be a single, structured Vastu Report, following all instructions below exactly. Use the Core Vastu Findings to guide your report.\<newline>'',
      ''            \<newline>'',
      ''            \<newline>'',
      ''        CORE VASTU FINDINGS (MUST BE USED AS THE BASIS FOR ALL REMEDIES):\<newline>'',
      ''        '',
      ''\<newline>'',
      ''        \<newline>'',
      ''        CONTEXT FOR THIS REPORT:\<newline>'',
      ''        - Area Scanned: '',
      ''\<newline>'',
      ''        - Location (C-Point): The '',
      '' is in the '',
      '' zone of the house.\<newline>'',
      ''        - Floor: '',
      ''\<newline>'',
      ''        - User's Concerns: '',
      ''\<newline>'',
      ''        - Property Surroundings: '',
      ''\<newline>'',
      ''        - Scan Data: Average Heading: '',
      '' degrees. Zones Covered: '',
      ''.\<newline>'',
      ''    \<newline>'',
      ''\<newline>'',
      ''            Based on ALL this data, provide a comprehensive report. Tailor your analysis and remedies in Section I and IV to address the user's primary concerns and the CORE VASTU FINDINGS.\<newline>'',
      ''            \<newline>'',
      ''            The report must be structured into FIVE consecutive sections. Use **bold markdown** for all section titles:\<newline>'',
      ''\<newline>'',
      ''            **I. Executive Summary (Layman's Terms)**: Simple summary. Cover the 2-3 most critical findings (from CORE ASSESSMENT) and non-structural remedies, linking them to the user's primary concerns (if provided).\<newline>'',
      ''            Ensure you mention the Vastu Zone compliance of the scanned area ('',
      '') based on its location ('',
      '').\<newline>'',
      ''\<newline>'',
      ''            **II. Directional Data and Environmental Assessment**: Technical analysis of the observed headings and visual elements.\<newline>'',
      ''\<newline>'',
      ''            **III. Analysis of Vastu Compliance**: Technical findings, issues, and defects found, explicitly referencing the points in the CORE ASSESSMENT.\<newline>'',
      ''\<newline>'',
      ''            **IV. Remedial Recommendations (Advanced)**: CRITICAL: This section MUST use bullet points (using a dash "-"). Structure this section into two sub-sections using **bold markdown**. All remedies must be NON-STRUCTURAL (no construction or demolition suggested):\<newline>'',
      ''            **Minor Defects & Remedies**\<newline>'',
      ''            (List non-structural remedies here, like placing plants, changing colors, or adding mirrors.)\<newline>'',
      ''            **Major Defects & Remedies**\<newline>'',
      ''            (List more significant NON-STRUCTURAL remedies here, like moving heavy furniture or changing bed positions.)\<newline>'',
      ''            \<newline>'',
      ''            **V. Vastu Tips & Remedies (Actionable Advice)**: A short, separate section offering quick, general Vastu tips related to this specific room type.\<newline>'',
      ''\<newline>'',
      ''            Formatting requirements: Use paragraph breaks for readability. You MUST use bullet points (using -). You MUST use **bold markdown** for all section and sub-section titles.\<newline>'',
      ''        '']\<close>

section \<open>Missing credential\<close>

text \<open>
  Claim C3. While the API credential is absent, \<open>/api/generateReport\<close> and
  \<open>/api/handleChat\<close> both answer HTTP 500 with a JSON error body, and neither issues
  an outbound call to the generation endpoint, whatever the request and the transport.
\<close>

theorem missing_key_no_calls:
  assumes "keyMissing cfg"
  shows "generateReport cfg fetch w rb =
           (HttpResponse 500 (ErrorJson (Error ''Server API Key is not configured.'')), [], w)
       \<and> handleChat cfg fetch w cb =
           (HttpResponse 500 (ErrorJson (Error ''Server API Key is not configured.'')), [], w)"
  using assms by (simp add: generateReport_def handleChat_def)

theorem missing_key_no_calls_witness:
  "keyMissing withoutKey
   \<and> generateReport withoutKey echoFetch 0 sampleReport =
       (HttpResponse 500 (ErrorJson (Error ''Server API Key is not configured.'')), [], 0)
   \<and> handleChat withoutKey echoFetch 0 sampleChat =
       (HttpResponse 500 (ErrorJson (Error ''Server API Key is not configured.'')), [], 0)"
proof -
  have k: "keyMissing withoutKey"
    by (simp add: keyMissing_def withoutKey_def)
  show ?thesis
    using k missing_key_no_calls [OF k, of echoFetch 0 sampleReport sampleChat] by simp
qed

section \<open>Evaluating numbers and their text\<close>

lemma floor_rat_numeral_div:
  "\<lfloor>(numeral a :: rat) / numeral b\<rfloor> = numeral a div numeral b"
  using floor_divide_of_int_eq [of "numeral a" "numeral b", where ?'a = rat] by simp

lemma decimal_digit: "n < 10 \<Longrightarrow> decimal n = [digitChar n]"
  by (simp add: decimal.simps)

lemma decimal_step: "10 \<le> n \<Longrightarrow> decimal n = decimal (n div 10) @ [digitChar (n mod 10)]"
  by (subst decimal.simps) simp

lemmas decimal_eval = decimal_digit decimal_step digitChar_def

lemma toFixed_20: "toFixed 1 (Fin 20) = ''20.0''"
proof -
  have "nat \<lfloor>\<bar>20::rat\<bar> * 10 ^ 1 + 1 / 2\<rfloor> = 200"
    by (simp add: floor_rat_numeral_div)
  then show ?thesis
    by (simp add: toFixed.simps decimal_eval)
qed

lemma toFixed_Suc0_20: "toFixed (Suc 0) (Fin 20) = ''20.0''"
  using toFixed_20 by simp

section \<open>One call to the model\<close>

lemma callModel_repliesText:
  assumes "fetch w req = (Responded r, w')" and "repliesText r t"
  shows "callModel fetch p w req = (Inr (Str t), w')"
  using assms by (auto simp: callModel_def repliesText_def split: sum.splits)

lemma callModel_lacksText:
  assumes "fetch w req = (Responded r, w')" and "lacksText r"
  shows "\<exists>v. callModel fetch p w req = (Inr v, w') \<and> \<not> truthy v"
  using assms by (auto simp: callModel_def lacksText_def split: sum.splits)

lemma callModel_not_ok:
  assumes "fetch w req = (Responded r, w')" and "\<not> ok r"
  shows "callModel fetch p w req =
           (Inl (case bodyText r of Inl e \<Rightarrow> e
                 | Inr errorText \<Rightarrow> Error (p @ decimal (status r) @ '' - '' @ errorText)), w')"
  using assms by (simp add: callModel_def split: sum.splits)

lemma repliesText_geminiReply: "repliesText (jsonResponse 200 (geminiReply t)) t"
  by (simp add: repliesText_def jsonResponse_def geminiReply_def ok_def extractText_def
      optChain_def)


section \<open>The stages of the report handler\<close>

lemma generateCoreAssessment_reply:
  assumes key: "\<not> keyMissing cfg"
    and s1: "fetch w (coreRequest cfg sd ps) = (Responded r1, w1)"
    and c: "repliesText r1 c \<and> c \<noteq> [] \<or> lacksText r1 \<and> c = corePlaceholder"
  shows "generateCoreAssessment cfg fetch w sd ps = (Inr (Str c), [coreRequest cfg sd ps], w1)"
  using c
proof
  assume "repliesText r1 c \<and> c \<noteq> []"
  then show ?thesis
    using key callModel_repliesText [of fetch w "coreRequest cfg sd ps" r1 w1 c, OF s1]
    by (simp add: generateCoreAssessment_def orElse_def)
next
  assume l: "lacksText r1 \<and> c = corePlaceholder"
  then obtain v where
    "callModel fetch ''Google API Error (Core Assessment): '' w (coreRequest cfg sd ps)
       = (Inr v, w1)" and "\<not> truthy v"
    using callModel_lacksText [of fetch w "coreRequest cfg sd ps" r1 w1, OF s1] by blast
  then show ?thesis
    using key l by (simp add: generateCoreAssessment_def orElse_def)
qed

lemma generateReport_success:
  assumes key: "\<not> keyMissing cfg"
    and ps: "ps = frameParts (capturedFrames sd)"
    and s1: "fetch w (coreRequest cfg sd ps) = (Responded r1, w1)"
    and c: "repliesText r1 c \<and> c \<noteq> [] \<or> lacksText r1 \<and> c = corePlaceholder"
    and q: "q = (if deep then deepQuery sd c else standardQuery sd c)"
    and s2: "fetch w1 (finalRequest cfg ps q) = (Responded r2, w2)"
    and a: "repliesText r2 a \<or> lacksText r2 \<and> a = []"
  shows "generateReport cfg fetch w \<lparr>isDeepAnalysis = deep, scanData = sd\<rparr> =
           (HttpResponse 200 (TextJson (Str (c @ ''\<newline>\<newline>---\<newline>\<newline>'' @ a))),
            [coreRequest cfg sd ps, finalRequest cfg ps q], w2)"
proof -
  have c1: "generateCoreAssessment cfg fetch w sd ps =
              (Inr (Str c), [coreRequest cfg sd ps], w1)"
    by (rule generateCoreAssessment_reply [where fetch = fetch and w = w, OF key s1 c])
  have g: "getAiQuery sd deep (Str c) = Inr q"
    by (simp add: getAiQuery_def q)
  have "\<exists>v. callModel fetch ''Google API Error: '' w1 (finalRequest cfg ps q) = (Inr v, w2)
          \<and> orElse v (Str []) = Str a"
    using a
  proof
    assume "repliesText r2 a"
    then show ?thesis
      using callModel_repliesText [of fetch w1 "finalRequest cfg ps q" r2 w2 a, OF s2]
      by (simp add: orElse_def)
  next
    assume "lacksText r2 \<and> a = []"
    then show ?thesis
      using callModel_lacksText [of fetch w1 "finalRequest cfg ps q" r2 w2, OF s2]
      by (auto simp: orElse_def)
  qed
  then obtain v where
    c2: "callModel fetch ''Google API Error: '' w1 (finalRequest cfg ps q) = (Inr v, w2)"
    and v: "orElse v (Str []) = Str a"
    by blast
  show ?thesis
    using key by (simp add: generateReport_def ps [symmetric] c1 g c2 v finalReport_def)
qed

lemma generateReport_first_call:
  assumes "\<not> keyMissing cfg"
  shows "take 1 (fst (snd (generateReport cfg fetch w rb))) =
           [coreRequest cfg (scanData rb) (frameParts (capturedFrames (scanData rb)))]"
  using assms
  by (simp add: generateReport_def generateCoreAssessment_def Let_def
      split: prod.splits sum.splits option.splits)

section \<open>The combined report\<close>

text \<open>
  Claim C1. When both generation calls of \<open>/api/generateReport\<close> succeed and yield
  text, the response is HTTP 200 and its text field is the Stage-1 core assessment,
  then the separator (two newlines, three dashes, two newlines), then the Stage-2 text,
  and nothing else. The handler has issued exactly the two calls, in that order. For
  the transport that answers \<open>CoreAssessmentMock\<close> and then \<open>FinalMock\<close> this is
  the round trip stated after the theorem.
\<close>

theorem report_text_is_core_separator_final:
  assumes "\<not> keyMissing cfg"
    and "ps = frameParts (capturedFrames sd)"
    and "fetch w (coreRequest cfg sd ps) = (Responded r1, w1)"
    and "repliesText r1 t1" and "t1 \<noteq> []"
    and "q = (if deep then deepQuery sd t1 else standardQuery sd t1)"
    and "fetch w1 (finalRequest cfg ps q) = (Responded r2, w2)"
    and "repliesText r2 t2"
  shows "generateReport cfg fetch w \<lparr>isDeepAnalysis = deep, scanData = sd\<rparr> =
           (HttpResponse 200
              (TextJson (Str (t1 @ ''\<newline>\<newline>---\<newline>\<newline>'' @ t2))),
            [coreRequest cfg sd ps, finalRequest cfg ps q], w2)"
  using assms
  by (intro generateReport_success [where fetch = fetch and w = w and ?w1.0 = w1
        and ?r1.0 = r1 and ?r2.0 = r2]) simp_all

theorem report_text_is_core_separator_final_witness:
  "\<not> keyMissing withKey
   \<and> generateReport withKey echoFetch 0 sampleReport =
       (HttpResponse 200
          (TextJson (Str (''CoreAssessmentMock'' @ ''\<newline>\<newline>---\<newline>\<newline>'' @ ''FinalMock''))),
        [coreRequest withKey (sampleScan sampleFrames) (frameParts sampleFrames),
         finalRequest withKey (frameParts sampleFrames)
           (standardQuery (sampleScan sampleFrames) ''CoreAssessmentMock'')],
        2)"
proof -
  have k: "\<not> keyMissing withKey"
    by (simp add: keyMissing_def withKey_def)
  have f: "capturedFrames (sampleScan sampleFrames) = sampleFrames"
    by (simp add: sampleScan_def)
  have "generateReport withKey echoFetch 0
          \<lparr>isDeepAnalysis = False, scanData = sampleScan sampleFrames\<rparr> =
        (HttpResponse 200
          (TextJson (Str (''CoreAssessmentMock'' @ ''\<newline>\<newline>---\<newline>\<newline>'' @ ''FinalMock''))),
         [coreRequest withKey (sampleScan sampleFrames) (frameParts sampleFrames),
          finalRequest withKey (frameParts sampleFrames)
            (standardQuery (sampleScan sampleFrames) ''CoreAssessmentMock'')],
         2)"
    by (rule report_text_is_core_separator_final
          [where fetch = echoFetch and w = 0 and ?w1.0 = 1
             and ?r1.0 = "jsonResponse 200 (geminiReply ''CoreAssessmentMock'')"
             and ?r2.0 = "jsonResponse 200 (geminiReply ''FinalMock'')"])
       (simp_all add: k f echoFetch_def repliesText_geminiReply)
  then show ?thesis
    using k by (simp add: sampleReport_def)
qed

section \<open>A failed first stage\<close>

text \<open>
  Claim C4. When the Stage-1 (core assessment) call of \<open>/api/generateReport\<close> comes
  back with a non-success status, the handler answers HTTP 500 with a JSON error body,
  the message naming the core assessment, the upstream status and the upstream body; the
  only outbound call it has issued is the Stage-1 call, so no Stage-2 call is made, and
  no Stage-1-only result is returned as a success.
\<close>

theorem stage1_failure_stops:
  assumes key: "\<not> keyMissing cfg"
    and ps: "ps = frameParts (capturedFrames (scanData rb))"
    and s1: "fetch w (coreRequest cfg (scanData rb) ps) = (Responded r, w1)"
    and bad: "\<not> ok r"
  shows "generateReport cfg fetch w rb =
           (HttpResponse 500 (ErrorJson
              (case bodyText r of
                 Inl e \<Rightarrow> e
               | Inr errorText \<Rightarrow>
                   Error (''Google API Error (Core Assessment): '' @ decimal (status r) @
                          '' - '' @ errorText))),
            [coreRequest cfg (scanData rb) ps], w1)"
proof -
  have "generateCoreAssessment cfg fetch w (scanData rb) ps =
          (Inl (case bodyText r of
                  Inl e \<Rightarrow> e
                | Inr errorText \<Rightarrow>
                    Error (''Google API Error (Core Assessment): '' @ decimal (status r) @
                           '' - '' @ errorText)),
           [coreRequest cfg (scanData rb) ps], w1)"
    using key callModel_not_ok [of fetch w "coreRequest cfg (scanData rb) ps" r w1, OF s1 bad]
    by (simp add: generateCoreAssessment_def)
  then show ?thesis
    using key by (simp add: generateReport_def ps [symmetric])
qed

lemma decimal_503: "decimal 503 = ''503''"
  by (simp add: decimal_eval)

theorem stage1_failure_stops_witness:
  "\<not> keyMissing withKey \<and> \<not> ok (failedResponse 503 ''overloaded'')
   \<and> generateReport withKey (constFetch (failedResponse 503 ''overloaded'')) 0 sampleReport =
       (HttpResponse 500
          (ErrorJson (Error ''Google API Error (Core Assessment): 503 - overloaded'')),
        [coreRequest withKey (sampleScan sampleFrames) (frameParts sampleFrames)], 1)"
proof -
  have k: "\<not> keyMissing withKey"
    by (simp add: keyMissing_def withKey_def)
  have b: "\<not> ok (failedResponse 503 ''overloaded'')"
    by (simp add: ok_def failedResponse_def)
  have s: "scanData sampleReport = sampleScan sampleFrames"
    "capturedFrames (sampleScan sampleFrames) = sampleFrames"
    by (simp_all add: sampleReport_def sampleScan_def)
  have "generateReport withKey (constFetch (failedResponse 503 ''overloaded'')) 0 sampleReport =
          (HttpResponse 500 (ErrorJson
             (case bodyText (failedResponse 503 ''overloaded'') of
                Inl e \<Rightarrow> e
              | Inr errorText \<Rightarrow>
                  Error (''Google API Error (Core Assessment): '' @
                         decimal (status (failedResponse 503 ''overloaded'')) @
                         '' - '' @ errorText))),
           [coreRequest withKey (scanData sampleReport) (frameParts sampleFrames)], 1)"
    by (rule stage1_failure_stops
          [where fetch = "constFetch (failedResponse 503 ''overloaded'')" and w = 0])
       (simp_all add: k b s constFetch_def)
  then show ?thesis
    using k b by (simp add: s failedResponse_def decimal_503)
qed

section \<open>A reply without text\<close>




text \<open>
  A body that parses to \<open>null\<close> is outside the amended claim: the read of
  \<open>result.candidates\<close> is not an optional one and throws, and the handler answers 500.
\<close>

lemma null_body_is_fatal:
  "handleChat withKey (constFetch (jsonResponse 200 Null)) 0 sampleChat =
     (HttpResponse 500 (ErrorJson TypeError), [chatRequest withKey sampleChat], 1)"
  by (simp add: handleChat_def callModel_def constFetch_def jsonResponse_def ok_def
      extractText_def keyMissing_def withKey_def)

section \<open>The part list\<close>

lemma foldl_pushFrame:
  "foldl pushFrame acc (enumerate n fs) =
     acc @ concat (map (\<lambda>(k, fr). [InlineData ''image/jpeg'' (imageData fr),
                                    Text (frameMarker k fr)]) (enumerate n fs))"
  by (induction fs arbitrary: acc n) (simp_all add: pushFrame_def)

lemma length_pairs:
  "length (concat (map (\<lambda>(k, fr). [f k fr, g k fr]) (enumerate n fs))) = 2 * length fs"
  by (induction fs arbitrary: n) simp_all

lemma nth_pairs:
  assumes "i < length fs"
  shows "concat (map (\<lambda>(k, fr). [f k fr, g k fr]) (enumerate n fs)) ! (2 * i) = f (n + i) (fs ! i)
       \<and> concat (map (\<lambda>(k, fr). [f k fr, g k fr]) (enumerate n fs)) ! (2 * i + 1)
           = g (n + i) (fs ! i)"
  using assms
proof (induction fs arbitrary: n i)
  case Nil
  then show ?case by simp
next
  case (Cons a fs)
  show ?case
  proof (cases i)
    case 0
    then show ?thesis by simp
  next
    case (Suc j)
    with Cons.prems have "j < length fs" by simp
    from Cons.IH [OF this, of "Suc n"] Suc show ?thesis by simp
  qed
qed

lemma filter_pairs:
  "filter isImage (concat (map (\<lambda>(k, fr). [InlineData m (d fr), Text (g k fr)])
      (enumerate n fs))) = map (\<lambda>fr. InlineData m (d fr)) fs"
  by (induction fs arbitrary: n) simp_all

lemma filter_not_pairs:
  "filter (\<lambda>p. \<not> isImage p) (concat (map (\<lambda>(k, fr). [InlineData m (d fr), Text (g k fr)])
      (enumerate n fs))) = map (\<lambda>(k, fr). Text (g k fr)) (enumerate n fs)"
  by (induction fs arbitrary: n) simp_all

lemma length_frameParts: "length (frameParts fs) = 2 * length fs"
  by (simp add: frameParts_def foldl_pushFrame length_pairs)

lemma requestParts_coreRequest:
  "requestParts (coreRequest cfg sd ps) = ps @ [Text (coreQuery sd ps)]"
  by (simp add: requestParts_def coreRequest_def post_def userPayload_def)

text \<open>
  Claim C5. For a scan with \<open>N\<close> captured frames the part list of the Stage-1 request
  has \<open>2 * N + 1\<close> parts: for the frame at position \<open>i\<close>, counted from 0, part
  \<open>2 * i\<close> is its image (inline JPEG data) and part \<open>2 * i + 1\<close> is its text marker,
  carrying the segment index \<open>i + 1\<close>, the heading with one decimal and the zone label;
  the last part is the instruction text. There are exactly \<open>N\<close> image parts, in frame
  order, and exactly \<open>N\<close> text markers before the instruction. With the credential
  present, this request is the first call the handler issues.
\<close>

theorem stage1_parts_interleaved:
  fixes sd :: scanData and cfg :: config
  defines "fs \<equiv> capturedFrames sd"
  defines "ps \<equiv> requestParts (coreRequest cfg sd (frameParts fs))"
  shows "length ps = 2 * length fs + 1
       \<and> (\<forall>i < length fs.
            ps ! (2 * i) = InlineData ''image/jpeg'' (imageData (fs ! i))
          \<and> ps ! (2 * i + 1) =
              Text (''--- Visual Data Segment '' @ decimal (i + 1) @
                    '' Captured at Heading '' @ toFixed 1 (heading (fs ! i)) @
                    '' degrees (Vastu Zone: '' @ zone (fs ! i) @ '') ---''))
       \<and> ps ! (2 * length fs) = Text (coreQuery sd (frameParts fs))
       \<and> filter isImage ps = map (\<lambda>fr. InlineData ''image/jpeg'' (imageData fr)) fs
       \<and> length (filter (\<lambda>p. \<not> isImage p) (butlast ps)) = length fs
       \<and> (\<not> keyMissing cfg \<longrightarrow>
            take 1 (fst (snd (generateReport cfg fetch w
                                \<lparr>isDeepAnalysis = deep, scanData = sd\<rparr>)))
              = [coreRequest cfg sd (frameParts fs)])"
proof -
  let ?pairs = "concat (map (\<lambda>(k, fr). [InlineData ''image/jpeg'' (imageData fr),
                                         Text (frameMarker k fr)]) (enumerate 0 fs))"
  have fp: "frameParts fs = ?pairs"
    by (simp add: frameParts_def foldl_pushFrame)
  have ps: "ps = ?pairs @ [Text (coreQuery sd (frameParts fs))]"
    by (simp add: ps_def requestParts_coreRequest fp [symmetric])
  have len: "length ?pairs = 2 * length fs"
    by (rule length_pairs)
  have 1: "length ps = 2 * length fs + 1"
    by (simp add: ps len)
  have 2: "ps ! (2 * i) = InlineData ''image/jpeg'' (imageData (fs ! i))
         \<and> ps ! (2 * i + 1) =
             Text (''--- Visual Data Segment '' @ decimal (i + 1) @
                   '' Captured at Heading '' @ toFixed 1 (heading (fs ! i)) @
                   '' degrees (Vastu Zone: '' @ zone (fs ! i) @ '') ---'')"
    if "i < length fs" for i
  proof -
    have "2 * i < length ?pairs" "2 * i + 1 < length ?pairs"
      using that len by simp_all
    then have "ps ! (2 * i) = ?pairs ! (2 * i)" "ps ! (2 * i + 1) = ?pairs ! (2 * i + 1)"
      unfolding ps by (simp_all only: nth_append if_True)
    then show ?thesis
      using nth_pairs [OF that, of "\<lambda>k fr. InlineData ''image/jpeg'' (imageData fr)"
          "\<lambda>k fr. Text (frameMarker k fr)" 0]
      by (simp add: frameMarker_def)
  qed
  have 3: "ps ! (2 * length fs) = Text (coreQuery sd (frameParts fs))"
    unfolding ps len [symmetric] by (rule nth_append_length)
  have 4: "filter isImage ps = map (\<lambda>fr. InlineData ''image/jpeg'' (imageData fr)) fs"
    by (simp add: ps filter_pairs)
  have 5: "length (filter (\<lambda>p. \<not> isImage p) (butlast ps)) = length fs"
    by (simp add: ps filter_not_pairs)
  have 6: "take 1 (fst (snd (generateReport cfg fetch w
                                \<lparr>isDeepAnalysis = deep, scanData = sd\<rparr>)))
             = [coreRequest cfg sd (frameParts fs)]"
    if "\<not> keyMissing cfg"
    using generateReport_first_call
      [OF that, of fetch w "\<lparr>isDeepAnalysis = deep, scanData = sd\<rparr>"]
    by (simp add: fs_def)
  from 1 2 3 4 5 6 show ?thesis by blast
qed

theorem stage1_parts_interleaved_witness:
  "length (requestParts (coreRequest withKey (sampleScan sampleFrames) (frameParts sampleFrames)))
     = 7
   \<and> requestParts (coreRequest withKey (sampleScan sampleFrames) (frameParts sampleFrames)) ! 2
       = InlineData ''image/jpeg'' ''d29ybGQ=''
   \<and> requestParts (coreRequest withKey (sampleScan sampleFrames) (frameParts sampleFrames)) ! 3
       = Text ''--- Visual Data Segment 2 Captured at Heading 20.0 degrees (Vastu Zone: South) ---''"
proof -
  have f: "capturedFrames (sampleScan sampleFrames) = sampleFrames"
    by (simp add: sampleScan_def)
  have n: "length sampleFrames = 3" "sampleFrames ! 1 = \<lparr>imageData = ''d29ybGQ='', heading = Fin 20, zone = ''South''\<rparr>"
    by (simp_all add: sampleFrames_def)
  note t = stage1_parts_interleaved
    [of withKey "sampleScan sampleFrames" echoFetch 0 False, unfolded f n]
  have i: "(1::nat) < 3" by simp
  have e: "2 * (1::nat) = 2" "(2::nat) + 1 = 3" "(1::nat) + 1 = 2" "2 * (3::nat) + 1 = 7"
    by simp_all
  note a = t [THEN conjunct1, unfolded e]
  note b = t [THEN conjunct2, THEN conjunct1, rule_format, OF i, unfolded e n]
  show ?thesis
    using a b by (simp add: toFixed_Suc0_20 decimal_eval)
qed

section \<open>The segment count of the first prompt\<close>

text \<open>
  Claim C9. \<open>generateCoreAssessment\<close> receives the part list when it holds one image
  and one text marker per frame and no instruction yet, so the segment count it writes
  into its instruction text, the length of the part list minus one, is \<open>2 * N - 1\<close>
  for \<open>N\<close> captured frames, and the text begins by asking to analyze that many visual
  segments. This is not \<open>N\<close> unless \<open>N = 1\<close>, and it is more than \<open>N\<close> for
  every \<open>N\<close> greater than 1. The text is the instruction part of the first call the
  handler issues.
\<close>

theorem core_query_segment_count:
  fixes sd :: scanData
  defines "N \<equiv> length (capturedFrames sd)"
  shows "int (length (frameParts (capturedFrames sd))) - 1 = 2 * int N - 1
       \<and> prefix (''\<newline>        CRITICAL INSTRUCTION: You are a Vastu Analyst AI. '' @
                 ''Analyze the provided '' @ showInt (2 * int N - 1) @ '' visual segments '')
           (coreQuery sd (frameParts (capturedFrames sd)))
       \<and> (2 * int N - 1 = int N \<longleftrightarrow> N = 1)
       \<and> (1 < N \<longrightarrow> int N < 2 * int N - 1)
       \<and> (\<not> keyMissing cfg \<longrightarrow>
            map (\<lambda>r. last (requestParts r))
              (take 1 (fst (snd (generateReport cfg fetch w
                                   \<lparr>isDeepAnalysis = deep, scanData = sd\<rparr>))))
              = [Text (coreQuery sd (frameParts (capturedFrames sd)))])"
proof -
  have "int (length (frameParts (capturedFrames sd))) - 1 = 2 * int N - 1"
    by (simp add: length_frameParts N_def)
  moreover have
    "prefix (''\<newline>        CRITICAL INSTRUCTION: You are a Vastu Analyst AI. '' @
             ''Analyze the provided '' @ showInt (2 * int N - 1) @ '' visual segments '')
       (coreQuery sd (frameParts (capturedFrames sd)))"
    by (simp add: coreQuery_def length_frameParts N_def)
  moreover have "(2 * int N - 1 = int N \<longleftrightarrow> N = 1)" "1 < N \<longrightarrow> int N < 2 * int N - 1"
    by auto
  moreover have
    "map (\<lambda>r. last (requestParts r))
       (take 1 (fst (snd (generateReport cfg fetch w
                            \<lparr>isDeepAnalysis = deep, scanData = sd\<rparr>))))
       = [Text (coreQuery sd (frameParts (capturedFrames sd)))]"
    if "\<not> keyMissing cfg"
    using generateReport_first_call
      [OF that, of fetch w "\<lparr>isDeepAnalysis = deep, scanData = sd\<rparr>"]
    by (simp add: requestParts_coreRequest)
  ultimately show ?thesis by blast
qed

lemma showInt_5: "showInt 5 = ''5''"
  by (simp add: showInt_def decimal_eval)

theorem core_query_segment_count_witness:
  "length (capturedFrames (sampleScan sampleFrames)) = 3
   \<and> prefix (''\<newline>        CRITICAL INSTRUCTION: You are a Vastu Analyst AI. '' @
             ''Analyze the provided 5 visual segments '')
       (coreQuery (sampleScan sampleFrames) (frameParts sampleFrames))"
proof -
  have f: "capturedFrames (sampleScan sampleFrames) = sampleFrames"
    by (simp add: sampleScan_def)
  have n: "length sampleFrames = 3"
    by (simp add: sampleFrames_def)
  show ?thesis
    using core_query_segment_count
      [of "sampleScan sampleFrames" withKey echoFetch 0 False, unfolded f n]
    by (simp add: f n showInt_5)
qed

section \<open>What the second prompt says about the scan\<close>

lemma sublist_skip: "sublist xs ys \<Longrightarrow> sublist xs (zs @ ys)"
  by (metis sublist_append)

lemma sublist_here: "sublist xs (xs @ ys)"
  by simp

lemma sublist_trans: "sublist xs ys \<Longrightarrow> sublist ys zs \<Longrightarrow> sublist xs zs"
  by (auto simp: sublist_def) (metis append.assoc)

lemma sharedContext_scan_line:
  "sublist (''- Scan Data: Average Heading: '' @ toFixed 1 (avgHeading sd) @
            '' degrees. Zones Covered: '' @ vastuZonesObserved sd @ ''.'')
     (sharedContext sd c)"
proof -
  have "suffix (''        - Scan Data: Average Heading: '' @ toFixed 1 (avgHeading sd) @
                '' degrees. Zones Covered: '' @ vastuZonesObserved sd @ ''.\<newline>'' @ ''    '')
          (sharedContext sd c)"
    unfolding sharedContext_def
    by (rule suffix_order.refl | rule suffix_appendI)+
  then obtain p where
    "sharedContext sd c =
       (p @ ''        '') @
       (''- Scan Data: Average Heading: '' @ toFixed 1 (avgHeading sd) @
        '' degrees. Zones Covered: '' @ vastuZonesObserved sd @ ''.'') @ ''\<newline>    ''"
    by (auto simp: suffix_def)
  then show ?thesis
    by (metis sublist_appendI)
qed

lemma sharedContext_in_query:
  "sublist (sharedContext sd c) (if deep then deepQuery sd c else standardQuery sd c)"
proof (cases deep)
  case True
  have "sublist (sharedContext sd c) (deepQuery sd c)"
    unfolding deepQuery_def by (rule sublist_here | rule sublist_skip)+
  with True show ?thesis by simp
next
  case False
  have "sublist (sharedContext sd c) (standardQuery sd c)"
    unfolding standardQuery_def by (rule sublist_here | rule sublist_skip)+
  with False show ?thesis by simp
qed

lemma query_scan_line:
  "sublist (''- Scan Data: Average Heading: '' @ toFixed 1 (avgHeading sd) @
            '' degrees. Zones Covered: '' @ vastuZonesObserved sd @ ''.'')
     (if deep then deepQuery sd c else standardQuery sd c)"
  by (rule sublist_trans [OF sharedContext_scan_line sharedContext_in_query])

section \<open>A scan without frames\<close>

text \<open>
  Claim C10. A request to \<open>/api/generateReport\<close> whose scan has no captured frames
  is not rejected on that ground. The average heading is the sum 0 divided by the
  length 0, which is \<open>NaN\<close> and is written into the prompt as such; the list of
  zones covered is empty; \<open>getAiQuery\<close> still returns a string; and the handler
  goes on: with the credential present it issues the Stage-1 call, with an empty list
  of frame parts, and when both calls yield text it answers HTTP 200.
\<close>

theorem empty_scan_is_not_rejected:
  assumes "capturedFrames sd = []"
  shows "avgHeading sd = NaN
       \<and> toFixed 1 (avgHeading sd) = ''NaN''
       \<and> vastuZonesObserved sd = []
       \<and> getAiQuery sd deep (Str c) = Inr (if deep then deepQuery sd c else standardQuery sd c)
       \<and> sublist ''- Scan Data: Average Heading: NaN degrees. Zones Covered: .''
            (if deep then deepQuery sd c else standardQuery sd c)
       \<and> (\<not> keyMissing cfg \<longrightarrow>
            take 1 (fst (snd (generateReport cfg fetch w
                                \<lparr>isDeepAnalysis = deep, scanData = sd\<rparr>)))
              = [coreRequest cfg sd []])
       \<and> (\<not> keyMissing cfg \<longrightarrow>
            fetch w (coreRequest cfg sd []) = (Responded r1, w1) \<longrightarrow>
            repliesText r1 t1 \<and> t1 \<noteq> [] \<longrightarrow>
            fetch w1 (finalRequest cfg []
               (if deep then deepQuery sd t1 else standardQuery sd t1)) = (Responded r2, w2) \<longrightarrow>
            repliesText r2 t2 \<longrightarrow>
            fst (generateReport cfg fetch w \<lparr>isDeepAnalysis = deep, scanData = sd\<rparr>)
              = HttpResponse 200
                  (TextJson (Str (t1 @ ''\<newline>\<newline>---\<newline>\<newline>'' @ t2))))"
proof -
  have a: "avgHeading sd = NaN"
    by (simp add: avgHeading_def assms)
  have t: "toFixed 1 (avgHeading sd) = ''NaN''"
    by (simp add: a toFixed.simps)
  have z: "vastuZonesObserved sd = []"
    by (simp add: vastuZonesObserved_def newSet_def assms)
  have g: "getAiQuery sd deep (Str c) = Inr (if deep then deepQuery sd c else standardQuery sd c)"
    by (simp add: getAiQuery_def)
  have s: "sublist ''- Scan Data: Average Heading: NaN degrees. Zones Covered: .''
             (if deep then deepQuery sd c else standardQuery sd c)"
    using query_scan_line [of sd deep c, unfolded t z] by simp
  have fp: "frameParts (capturedFrames sd) = []"
    by (simp add: assms frameParts_def)
  have f: "take 1 (fst (snd (generateReport cfg fetch w
                                \<lparr>isDeepAnalysis = deep, scanData = sd\<rparr>)))
             = [coreRequest cfg sd []]"
    if "\<not> keyMissing cfg"
    using generateReport_first_call [OF that, of fetch w "\<lparr>isDeepAnalysis = deep, scanData = sd\<rparr>"]
    by (simp add: fp)
  have r: "fst (generateReport cfg fetch w \<lparr>isDeepAnalysis = deep, scanData = sd\<rparr>)
             = HttpResponse 200
                 (TextJson (Str (t1 @ ''\<newline>\<newline>---\<newline>\<newline>'' @ t2)))"
    if "\<not> keyMissing cfg" "fetch w (coreRequest cfg sd []) = (Responded r1, w1)"
      "repliesText r1 t1 \<and> t1 \<noteq> []"
      "fetch w1 (finalRequest cfg []
         (if deep then deepQuery sd t1 else standardQuery sd t1)) = (Responded r2, w2)"
      "repliesText r2 t2"
  proof -
    have "generateReport cfg fetch w \<lparr>isDeepAnalysis = deep, scanData = sd\<rparr> =
            (HttpResponse 200
               (TextJson (Str (t1 @ ''\<newline>\<newline>---\<newline>\<newline>'' @ t2))),
             [coreRequest cfg sd [],
              finalRequest cfg [] (if deep then deepQuery sd t1 else standardQuery sd t1)], w2)"
      using that
      by (intro generateReport_success [where fetch = fetch and w = w and ?w1.0 = w1
            and ?r1.0 = r1 and ?r2.0 = r2]) (simp_all add: fp)
    then show ?thesis by simp
  qed
  from a t z g s f r show ?thesis by blast
qed

theorem empty_scan_is_not_rejected_witness:
  "capturedFrames (sampleScan []) = []
   \<and> avgHeading (sampleScan []) = NaN
   \<and> sublist ''- Scan Data: Average Heading: NaN degrees. Zones Covered: .''
        (standardQuery (sampleScan []) ''CoreAssessmentMock'')
   \<and> fst (generateReport withKey echoFetch 0
            \<lparr>isDeepAnalysis = False, scanData = sampleScan []\<rparr>)
       = HttpResponse 200
           (TextJson (Str (''CoreAssessmentMock'' @ ''\<newline>\<newline>---\<newline>\<newline>'' @ ''FinalMock'')))"
proof -
  have e: "capturedFrames (sampleScan []) = []"
    by (simp add: sampleScan_def)
  have k: "\<not> keyMissing withKey"
    by (simp add: keyMissing_def withKey_def)
  note t = empty_scan_is_not_rejected
    [OF e, where cfg = withKey and fetch = echoFetch and w = 0 and ?w1.0 = 1 and ?w2.0 = 2
       and deep = False and c = "''CoreAssessmentMock''" and ?t1.0 = "''CoreAssessmentMock''"
       and ?t2.0 = "''FinalMock''"
       and ?r1.0 = "jsonResponse 200 (geminiReply ''CoreAssessmentMock'')"
       and ?r2.0 = "jsonResponse 200 (geminiReply ''FinalMock'')"]
  show ?thesis
    using e k t by (simp add: echoFetch_def repliesText_geminiReply)
qed

section \<open>The zones observed\<close>

lemma foldl_setAdd:
  "foldl setAdd acc xs = acc @ firstOccurrences (filter (\<lambda>x. x \<notin> set acc) xs)"
proof (induction xs arbitrary: acc)
  case Nil
  then show ?case by simp
next
  case (Cons x xs)
  have "filter (\<lambda>y. y \<noteq> x) (filter (\<lambda>y. y \<notin> set acc) xs)
          = filter (\<lambda>y. y \<notin> set (acc @ [x])) xs"
    by (induction xs) auto
  with Cons show ?case
    by (simp add: setAdd_def)
qed

lemma newSet_firstOccurrences: "newSet xs = firstOccurrences xs"
  by (simp add: newSet_def foldl_setAdd)

lemma set_firstOccurrences: "set (firstOccurrences xs) = set xs"
proof (induction xs rule: firstOccurrences.induct)
  case 1
  then show ?case by simp
next
  case (2 x xs)
  then show ?case by auto
qed

lemma distinct_firstOccurrences: "distinct (firstOccurrences xs)"
proof (induction xs rule: firstOccurrences.induct)
  case 1
  then show ?case by simp
next
  case (2 x xs)
  then show ?case by (simp add: set_firstOccurrences)
qed

text \<open>
  Claim C8. The observed-zones text written into the Stage-2 prompt is the list of the
  frames' zone labels with every repetition after the first dropped, in order of first
  appearance, joined by a comma and a space: it names every zone of the scan, and
  none twice. Zones North, South, North give \<open>North, South\<close>.
\<close>

theorem zones_in_order_of_first_appearance:
  fixes sd :: scanData
  defines "zs \<equiv> map zone (capturedFrames sd)"
  shows "vastuZonesObserved sd = joinWith '', '' (firstOccurrences zs)
       \<and> newSet zs = firstOccurrences zs
       \<and> distinct (newSet zs) \<and> set (newSet zs) = set zs
       \<and> sublist (''Zones Covered: '' @ joinWith '', '' (firstOccurrences zs) @ ''.'')
            (if deep then deepQuery sd c else standardQuery sd c)"
proof -
  have v: "vastuZonesObserved sd = joinWith '', '' (firstOccurrences zs)"
    by (simp add: vastuZonesObserved_def newSet_firstOccurrences zs_def)
  have "sublist (''Zones Covered: '' @ vastuZonesObserved sd @ ''.'')
          (''- Scan Data: Average Heading: '' @ toFixed 1 (avgHeading sd) @
           '' degrees. Zones Covered: '' @ vastuZonesObserved sd @ ''.'')"
  proof -
    have "''- Scan Data: Average Heading: '' @ toFixed 1 (avgHeading sd) @
            '' degrees. Zones Covered: '' @ vastuZonesObserved sd @ ''.''
          = (''- Scan Data: Average Heading: '' @ toFixed 1 (avgHeading sd) @ '' degrees. '') @
            (''Zones Covered: '' @ vastuZonesObserved sd @ ''.'')"
      by simp
    then show ?thesis
      by (metis sublist_append_leftI)
  qed
  then have "sublist (''Zones Covered: '' @ vastuZonesObserved sd @ ''.'')
               (if deep then deepQuery sd c else standardQuery sd c)"
    by (rule sublist_trans [OF _ query_scan_line])
  with v show ?thesis
    by (simp add: newSet_firstOccurrences distinct_firstOccurrences set_firstOccurrences)
qed

theorem zones_in_order_of_first_appearance_witness:
  "map zone (capturedFrames (sampleScan sampleFrames)) = [''North'', ''South'', ''North'']
   \<and> vastuZonesObserved (sampleScan sampleFrames) = ''North, South''
   \<and> sublist ''Zones Covered: North, South.''
        (standardQuery (sampleScan sampleFrames) ''CoreAssessmentMock'')"
proof -
  have z: "map zone (capturedFrames (sampleScan sampleFrames)) = [''North'', ''South'', ''North'']"
    by (simp add: sampleScan_def sampleFrames_def)
  show ?thesis
    using zones_in_order_of_first_appearance
      [of "sampleScan sampleFrames" False "''CoreAssessmentMock''", unfolded z]
    by (simp add: z)
qed

section \<open>Rounding is exact on small integers\<close>

lemma roundHalfEven_of_int: "roundHalfEven (of_int m) = m"
  by (simp add: roundHalfEven_def)

lemma pow2_nonpos: "e \<le> 0 \<Longrightarrow> pow2 e = 1 / 2 ^ nat (- e)"
  by (cases "e = 0") (simp_all add: pow2_def)

lemma ilog2_of_int_bounds:
  assumes "0 < k" and "k < 2 ^ 53"
  shows "0 \<le> ilog 2 (of_int k)" and "ilog 2 (of_int k) \<le> 52"
proof -
  have e: "ilog 2 (of_int k) = int (floorlog 2 (nat k)) - 1"
    using assms by (simp add: ilog_def)
  have "nat k < 2 ^ 53"
    using assms by (simp add: nat_less_iff)
  then have "floorlog 2 (nat k) \<le> 53"
    by (intro floorlog_leI) simp_all
  moreover have "floorlog 2 (nat k) \<noteq> 0"
    using assms by (simp add: floorlog_eq_zero_iff)
  ultimately show "0 \<le> ilog 2 (of_int k)" and "ilog 2 (of_int k) \<le> 52"
    by (simp_all add: e)
qed

lemma fl_of_int:
  assumes "\<bar>k\<bar> < 2 ^ 53"
  shows "fl (of_int k) = Fin (of_int k)"
proof (cases "k = 0")
  case True
  then show ?thesis by (simp add: fl_def)
next
  case False
  define e where "e = ilog 2 \<bar>of_int k :: rat\<bar>"
  have "e = ilog 2 (of_int \<bar>k\<bar>)"
    by (simp add: e_def)
  then have e: "0 \<le> e" "e \<le> 52"
    using ilog2_of_int_bounds [of "\<bar>k\<bar>"] False assms by simp_all
  define d where "d = nat (52 - e)"
  have u: "pow2 (e - 52) = 1 / 2 ^ d"
    using e by (simp add: pow2_nonpos d_def)
  have q: "(of_int k :: rat) / pow2 (e - 52) = of_int (k * 2 ^ d)"
    by (simp add: u)
  have r: "of_int (roundHalfEven ((of_int k :: rat) / pow2 (e - 52))) * pow2 (e - 52)
             = (of_int k :: rat)"
    unfolding q roundHalfEven_of_int by (simp add: u)
  have "\<bar>of_int k :: rat\<bar> < 2 ^ 53"
    using assms by (metis of_int_abs of_int_less_numeral_power_cancel_iff)
  also have "(2::rat) ^ 53 \<le> 2 ^ 1024"
    by (rule power_increasing) simp_all
  finally have big: "\<not> pow2 1024 \<le> \<bar>of_int k :: rat\<bar>"
    by (simp add: pow2_def)
  have m: "max e (- 1022) = e"
    using e by simp
  show ?thesis
    using False big by (simp add: fl_def Let_def e_def [symmetric] m r)
qed

lemma foldl_headings_exact:
  assumes "map heading fs = map (\<lambda>k. Fin (of_int k)) ks"
    and "\<forall>k \<in> set ks. \<bar>k\<bar> \<le> B"
    and "\<bar>a\<bar> + int (length ks) * B < 2 ^ 53"
  shows "foldl (\<lambda>sum fr. jsadd sum (heading fr)) (Fin (of_int a)) fs
           = Fin (of_int (a + sum_list ks))"
  using assms
proof (induction fs arbitrary: ks a)
  case Nil
  then show ?case by simp
next
  case (Cons f fs)
  from Cons.prems(1) obtain k ks' where ks: "ks = k # ks'"
    and h: "heading f = Fin (of_int k)"
    and m: "map heading fs = map (\<lambda>k. Fin (of_int k)) ks'"
    by (cases ks) auto
  have kB: "\<bar>k\<bar> \<le> B" and rest: "\<forall>k \<in> set ks'. \<bar>k\<bar> \<le> B"
    using Cons.prems(2) by (simp_all add: ks)
  have "0 \<le> B"
    using kB by linarith
  then have nn: "0 \<le> int (length ks') * B"
    by simp
  have bound: "\<bar>a\<bar> + B + int (length ks') * B < 2 ^ 53"
    using Cons.prems(3) by (simp add: ks algebra_simps)
  have "\<bar>a + k\<bar> < 2 ^ 53"
    using kB nn bound by linarith
  then have step: "fl (of_int a + of_int k) = Fin (of_int a + of_int k)"
    using fl_of_int [of "a + k"] by simp
  have "\<bar>a + k\<bar> + int (length ks') * B < 2 ^ 53"
    using kB bound by linarith
  from Cons.IH [OF m rest this] show ?case
    by (simp add: h step ks add.assoc)
qed

section \<open>The rounding error of the average\<close>

lemma pow2_powi: "pow2 e = 2 powi e"
  by (simp add: pow2_def power_int_def power_one_over inverse_eq_divide)

lemma pow2_pos: "0 < pow2 e"
  by (simp add: pow2_powi)

lemma pow2_add: "pow2 (a + b) = pow2 a * pow2 b"
  by (simp add: pow2_powi power_int_add)

lemma ilog2_le:
  assumes "0 < x"
  shows "pow2 (ilog 2 x) \<le> x"
proof (cases "1 \<le> x")
  case True
  define n where "n = nat \<lfloor>x\<rfloor>"
  have f: "1 \<le> \<lfloor>x\<rfloor>"
    using True by (simp add: le_floor_iff)
  then have n0: "0 < n"
    by (simp add: n_def)
  have "(of_nat n :: rat) = of_int \<lfloor>x\<rfloor>"
    using f by (simp add: n_def)
  then have nx: "of_nat n \<le> x"
    by simp
  have "floorlog 2 n \<noteq> 0"
    using n0 by (simp add: floorlog_eq_zero_iff)
  then have k: "0 < floorlog 2 n"
    by simp
  have "2 ^ (floorlog 2 n - 1) \<le> n"
    using floorlog_bounds [of n 2] n0 by simp
  then have "(of_nat (2 ^ (floorlog 2 n - 1)) :: rat) \<le> of_nat n"
    by (simp only: of_nat_le_iff)
  then have "(2::rat) ^ (floorlog 2 n - 1) \<le> of_nat n"
    by simp
  moreover have "ilog 2 x = int (floorlog 2 n - 1)"
    using True k by (simp add: ilog_def n_def [symmetric] of_nat_diff)
  then have "pow2 (ilog 2 x) = 2 ^ (floorlog 2 n - 1)"
    by (simp add: pow2_def)
  ultimately show ?thesis
    using nx by linarith
next
  case False
  define c where "c = \<lceil>1 / x\<rceil>"
  define n where "n = nat (c - 1)"
  have "1 < 1 / x"
    using False assms by (simp add: field_simps)
  then have c2: "2 \<le> c"
    unfolding c_def by (simp add: le_ceiling_iff)
  have cx: "1 / x \<le> of_int c"
    unfolding c_def by (rule le_of_int_ceiling)
  have n0: "0 < n" and cn: "c = int n + 1"
    using c2 by (simp_all add: n_def)
  define k where "k = floorlog 2 n"
  have "n < 2 ^ k"
    using floorlog_bounds [of n 2] n0 by (simp add: k_def)
  then have "n + 1 \<le> 2 ^ k"
    by simp
  then have "(of_nat (n + 1) :: rat) \<le> of_nat (2 ^ k)"
    by (simp only: of_nat_le_iff)
  then have "(of_int c :: rat) \<le> 2 ^ k"
    by (simp add: cn)
  with cx have "1 / x \<le> 2 ^ k"
    by linarith
  then have "1 / 2 ^ k \<le> x"
    using assms by (simp add: field_simps)
  moreover have "ilog 2 x = - int k"
    using False by (simp add: ilog_def c_def [symmetric] n_def [symmetric] k_def [symmetric])
  then have "pow2 (ilog 2 x) = 1 / 2 ^ k"
    by (simp add: pow2_def)
  ultimately show ?thesis by simp
qed

lemma roundHalfEven_error: "\<bar>of_int (roundHalfEven x) - x\<bar> \<le> 1 / 2"
proof -
  have "of_int \<lfloor>x\<rfloor> \<le> x" "x < of_int \<lfloor>x\<rfloor> + 1"
    by linarith+
  then show ?thesis
    by (auto simp: roundHalfEven_def Let_def abs_le_iff)
qed


lemma fl_error:
  assumes "fl q = Fin r"
  shows "\<bar>r - q\<bar> \<le> pow2 (- 53) * \<bar>q\<bar> + pow2 (- 1075)"
proof (cases "q = 0")
  case True
  with assms have "r = 0" by (simp add: fl_def)
  with True show ?thesis
    using pow2_pos [of "- 1075"] by simp
next
  case False
  define e where "e = max (ilog 2 \<bar>q\<bar>) (- 1022)"
  define v where "v = pow2 (e - 52)"
  have v0: "0 < v"
    by (simp add: v_def pow2_pos)
  have r: "r = of_int (roundHalfEven (q / v)) * v"
    using assms False
    by (simp add: fl_def Let_def e_def [symmetric] v_def [symmetric] split: if_splits)
  have "r - q = (of_int (roundHalfEven (q / v)) - q / v) * v"
    using v0 by (simp add: r field_simps)
  then have "\<bar>r - q\<bar> = \<bar>of_int (roundHalfEven (q / v)) - q / v\<bar> * v"
    using v0 by (simp add: abs_mult)
  also have "\<dots> \<le> 1 / 2 * v"
    using roundHalfEven_error [of "q / v"] v0 by (intro mult_right_mono) simp_all
  also have "1 / 2 * v = pow2 (e - 53)"
  proof -
    have "pow2 (e - 52) = pow2 (e - 53) * pow2 1"
      using pow2_add [of "e - 53" 1] by simp
    then show ?thesis
      by (simp add: v_def pow2_def)
  qed
  finally have b: "\<bar>r - q\<bar> \<le> pow2 (e - 53)" .
  show ?thesis
  proof (cases "- 1022 \<le> ilog 2 \<bar>q\<bar>")
    case True
    then have "e = ilog 2 \<bar>q\<bar>"
      by (simp add: e_def)
    then have "pow2 (e - 53) = pow2 (ilog 2 \<bar>q\<bar>) * pow2 (- 53)"
      using pow2_add [of "ilog 2 \<bar>q\<bar>" "- 53"] by simp
    also have "\<dots> \<le> \<bar>q\<bar> * pow2 (- 53)"
      using ilog2_le [of "\<bar>q\<bar>"] False pow2_pos [of "- 53"]
      by (intro mult_right_mono) simp_all
    finally show ?thesis
      using b pow2_pos [of "- 1075"] by (simp add: mult.commute)
  next
    case False
    then have "e = - 1022"
      by (simp add: e_def)
    with b have "\<bar>r - q\<bar> \<le> pow2 (- 1075)"
      by simp
    moreover have "0 \<le> pow2 (- 53) * \<bar>q\<bar>"
      using pow2_pos [of "- 53"] by simp
    ultimately show ?thesis by linarith
  qed
qed


lemma foldl_not_finite:
  assumes "\<And>a. x \<noteq> Fin a"
  shows "foldl (\<lambda>sum fr. jsadd sum (heading fr)) x fs \<noteq> Fin s"
  using assms
proof (induction fs arbitrary: x)
  case Nil
  then show ?case by simp
next
  case (Cons f fs)
  have "\<And>a. jsadd x (heading f) \<noteq> Fin a"
    using Cons.prems by (cases x; cases "heading f") simp_all
  from Cons.IH [OF this] show ?case by simp
qed

lemma pow2_1075: "pow2 (- 1075) = pow2 (- 53) * pow2 (- 1022)"
  using pow2_add [of "- 53" "- 1022"] by simp

lemma foldl_headings_error:
  assumes "foldl (\<lambda>sum fr. jsadd sum (heading fr)) (Fin a) fs = Fin s"
    and "map heading fs = map Fin hs"
  shows "\<bar>s - (a + sum_list hs)\<bar>
           \<le> ((1 + pow2 (- 53)) ^ length hs - 1)
              * (\<bar>a\<bar> + sum_list (map abs hs) + pow2 (- 1022))"
  using assms
proof (induction fs arbitrary: a hs)
  case Nil
  then show ?case by simp
next
  case (Cons f fs)
  define u where "u = pow2 (- 53)"
  define m where "m = pow2 (- 1022)"
  have u0: "0 < u" and m0: "0 < m"
    by (simp_all add: u_def m_def pow2_pos)
  from Cons.prems(2) obtain h hs' where hs: "hs = h # hs'"
    and hf: "heading f = Fin h" and mp: "map heading fs = map Fin hs'"
    by (cases hs) auto
  from Cons.prems(1) have run: "foldl (\<lambda>sum fr. jsadd sum (heading fr)) (fl (a + h)) fs = Fin s"
    by (simp add: hf)
  then obtain a' where a': "fl (a + h) = Fin a'"
    using foldl_not_finite [of "fl (a + h)" fs s] by blast
  from fl_error [OF a'] have e1: "\<bar>a' - (a + h)\<bar> \<le> u * (\<bar>a + h\<bar> + m)"
    by (simp add: pow2_1075 u_def m_def algebra_simps)
  define S where "S = sum_list (map abs hs')"
  define P where "P = (1 + u) ^ length hs'"
  define B where "B = \<bar>a\<bar> + \<bar>h\<bar> + S + m"
  have S0: "0 \<le> S"
    unfolding S_def by (rule sum_list_nonneg) auto
  have P1: "1 \<le> P"
    unfolding P_def using u0 by (intro one_le_power) simp
  have B0: "0 \<le> B"
    using S0 m0 by (simp add: B_def)
  from Cons.IH [OF run [unfolded a'] mp]
  have e2: "\<bar>s - (a' + sum_list hs')\<bar> \<le> (P - 1) * (\<bar>a'\<bar> + S + m)"
    by (simp add: P_def S_def u_def m_def)
  have ah: "\<bar>a + h\<bar> + m \<le> B - S"
    by (simp add: B_def)
  have "\<bar>a'\<bar> \<le> \<bar>a + h\<bar> + u * (\<bar>a + h\<bar> + m)"
    using e1 by linarith
  then have "\<bar>a'\<bar> + S + m \<le> (1 + u) * (\<bar>a + h\<bar> + m) + S"
    by (simp add: algebra_simps)
  also have "\<dots> \<le> (1 + u) * (B - S) + (1 + u) * S"
  proof -
    have "(1 + u) * (\<bar>a + h\<bar> + m) \<le> (1 + u) * (B - S)"
      using ah u0 by (intro mult_left_mono) simp_all
    moreover have "S \<le> (1 + u) * S"
      using S0 u0 by (simp add: algebra_simps)
    ultimately show ?thesis by linarith
  qed
  also have "\<dots> = (1 + u) * B"
    by (simp add: algebra_simps)
  finally have a'B: "\<bar>a'\<bar> + S + m \<le> (1 + u) * B" .
  have "(P - 1) * (\<bar>a'\<bar> + S + m) \<le> (P - 1) * ((1 + u) * B)"
    using a'B P1 by (intro mult_left_mono) simp_all
  with e2 have e3: "\<bar>s - (a' + sum_list hs')\<bar> \<le> (P - 1) * ((1 + u) * B)"
    by linarith
  have "u * (\<bar>a + h\<bar> + m) \<le> u * B"
    using ah S0 u0 by (intro mult_left_mono) simp_all
  with e1 have e4: "\<bar>a' - (a + h)\<bar> \<le> u * B"
    by linarith
  have "\<bar>s - (a + sum_list hs)\<bar> \<le> \<bar>s - (a' + sum_list hs')\<bar> + \<bar>a' - (a + h)\<bar>"
    by (simp add: hs)
  also have "\<dots> \<le> (P - 1) * ((1 + u) * B) + u * B"
    using e3 e4 by linarith
  also have "\<dots> = ((1 + u) * P - 1) * B"
    by (simp add: algebra_simps)
  finally show ?case
    by (simp add: hs P_def B_def S_def u_def m_def algebra_simps)
qed


lemma avgHeading_error:
  assumes av: "avgHeading sd = Fin a"
    and mp: "map heading (capturedFrames sd) = map Fin hs"
    and ne: "hs \<noteq> []"
  shows "\<bar>a - sum_list hs / of_nat (length hs)\<bar>
           \<le> ((1 + pow2 (- 53)) ^ (length hs + 1) - 1)
                * (sum_list (map abs hs) + pow2 (- 1022)) / of_nat (length hs)
              + pow2 (- 1075)"
proof -
  define u where "u = pow2 (- 53)"
  define m where "m = pow2 (- 1022)"
  define n :: rat where "n = of_nat (length hs)"
  define A where "A = sum_list (map abs hs)"
  define P where "P = (1 + u) ^ length hs"
  have u0: "0 < u" and m0: "0 < m"
    by (simp_all add: u_def m_def pow2_pos)
  have n0: "0 < n"
    using ne by (simp add: n_def)
  have len: "length (capturedFrames sd) = length hs"
    using mp by (metis length_map)
  have P1: "1 \<le> P"
    unfolding P_def using u0 by (intro one_le_power) simp
  have A0: "0 \<le> A"
    unfolding A_def by (rule sum_list_nonneg) auto
  obtain s where run: "foldl (\<lambda>sum fr. jsadd sum (heading fr)) (Fin 0) (capturedFrames sd) = Fin s"
    and q: "fl (s / n) = Fin a"
    using av ne
    by (cases "foldl (\<lambda>sum fr. jsadd sum (heading fr)) (Fin 0) (capturedFrames sd)")
       (simp_all add: avgHeading_def len n_def)
  define E where "E = (P - 1) * (A + m)"
  have E0: "0 \<le> E"
    using P1 A0 m0 by (simp add: E_def)
  have e1: "\<bar>s - sum_list hs\<bar> \<le> E"
    using foldl_headings_error [OF run mp]
    by (simp add: E_def P_def A_def u_def m_def)
  have "\<bar>sum_list hs\<bar> \<le> A"
    unfolding A_def by (rule sum_list_abs)
  with e1 have sb: "\<bar>s\<bar> \<le> A + E"
    by linarith
  have "\<bar>a - s / n\<bar> \<le> u * \<bar>s / n\<bar> + u * m"
    using fl_error [OF q] by (simp add: pow2_1075 u_def m_def)
  also have "u * \<bar>s / n\<bar> = u * \<bar>s\<bar> / n"
    using n0 by (simp add: abs_divide)
  also have "u * \<bar>s\<bar> / n \<le> u * (A + E) / n"
    using sb u0 n0 by (intro divide_right_mono mult_left_mono) simp_all
  finally have e2: "\<bar>a - s / n\<bar> \<le> u * (A + E) / n + u * m"
    by simp
  have "\<bar>s / n - sum_list hs / n\<bar> = \<bar>s - sum_list hs\<bar> / n"
    using n0 by (simp add: diff_divide_distrib [symmetric] abs_divide)
  also have "\<dots> \<le> E / n"
    using e1 n0 by (intro divide_right_mono) simp_all
  finally have e3: "\<bar>s / n - sum_list hs / n\<bar> \<le> E / n" .
  have "\<bar>a - sum_list hs / n\<bar> \<le> \<bar>a - s / n\<bar> + \<bar>s / n - sum_list hs / n\<bar>"
    by simp
  also have "\<dots> \<le> u * (A + E) / n + u * m + E / n"
    using e2 e3 by linarith
  also have "\<dots> = (u * A + (1 + u) * E) / n + u * m"
    by (simp add: algebra_simps add_divide_distrib)
  also have "\<dots> \<le> (u * (A + m) + (1 + u) * E) / n + u * m"
    using u0 m0 n0 by (intro add_right_mono divide_right_mono) (simp_all add: algebra_simps)
  also have "u * (A + m) + (1 + u) * E = ((1 + u) * P - 1) * (A + m)"
    by (simp add: E_def algebra_simps)
  finally show ?thesis
    by (simp add: P_def A_def u_def m_def n_def pow2_1075 mult.commute)
qed

section \<open>When the average is finite\<close>

lemma fl_cases:
  obtains r where "\<bar>r - q\<bar> \<le> pow2 (- 53) * \<bar>q\<bar> + pow2 (- 1075)"
    and "fl q = (if pow2 1024 \<le> \<bar>r\<bar> then (if 0 < q then PInf else NInf) else Fin r)"
proof (cases "q = 0")
  case True
  show ?thesis
  proof (rule that [of 0])
    show "\<bar>0 - q\<bar> \<le> pow2 (- 53) * \<bar>q\<bar> + pow2 (- 1075)"
      using True pow2_pos [of "- 1075"] by simp
    show "fl q = (if pow2 1024 \<le> \<bar>0::rat\<bar> then (if 0 < q then PInf else NInf) else Fin 0)"
      using True pow2_pos [of 1024] by (simp add: fl_def)
  qed
next
  case False
  define r where
    "r = of_int (roundHalfEven (q / pow2 (max (ilog 2 \<bar>q\<bar>) (- 1022) - 52)))
           * pow2 (max (ilog 2 \<bar>q\<bar>) (- 1022) - 52)"
  have f: "fl q = (if pow2 1024 \<le> \<bar>r\<bar> then (if 0 < q then PInf else NInf) else Fin r)"
    using False by (simp add: fl_def Let_def r_def)
  show ?thesis
  proof (cases "pow2 1024 \<le> \<bar>r\<bar>")
    case False
    with f have "fl q = Fin r" by simp
    from fl_error [OF this] f show ?thesis by (rule that)
  next
    case True
    define e where "e = max (ilog 2 \<bar>q\<bar>) (- 1022)"
    define v where "v = pow2 (e - 52)"
    have v0: "0 < v"
      by (simp add: v_def pow2_pos)
    have r: "r = of_int (roundHalfEven (q / v)) * v"
      by (simp add: r_def e_def v_def)
    have "r - q = (of_int (roundHalfEven (q / v)) - q / v) * v"
      using v0 by (simp add: r field_simps)
    then have "\<bar>r - q\<bar> = \<bar>of_int (roundHalfEven (q / v)) - q / v\<bar> * v"
      using v0 by (simp add: abs_mult)
    also have "\<dots> \<le> 1 / 2 * v"
      using roundHalfEven_error [of "q / v"] v0 by (intro mult_right_mono) simp_all
    also have "1 / 2 * v = pow2 (e - 53)"
    proof -
      have "pow2 (e - 52) = pow2 (e - 53) * pow2 1"
        using pow2_add [of "e - 53" 1] by simp
      then show ?thesis
        by (simp add: v_def pow2_def)
    qed
    finally have b: "\<bar>r - q\<bar> \<le> pow2 (e - 53)" .
    have "ilog 2 \<bar>q\<bar> \<le> e"
      by (simp add: e_def)
    have "\<bar>r - q\<bar> \<le> pow2 (- 53) * \<bar>q\<bar> + pow2 (- 1075)"
    proof (cases "- 1022 \<le> ilog 2 \<bar>q\<bar>")
      case True
      then have "e = ilog 2 \<bar>q\<bar>"
        by (simp add: e_def)
      then have "pow2 (e - 53) = pow2 (ilog 2 \<bar>q\<bar>) * pow2 (- 53)"
        using pow2_add [of "ilog 2 \<bar>q\<bar>" "- 53"] by simp
      also have "\<dots> \<le> \<bar>q\<bar> * pow2 (- 53)"
        using ilog2_le [of "\<bar>q\<bar>"] \<open>q \<noteq> 0\<close> pow2_pos [of "- 53"]
        by (intro mult_right_mono) simp_all
      finally show ?thesis
        using b pow2_pos [of "- 1075"] by (simp add: mult.commute)
    next
      case False
      then have "e = - 1022"
        by (simp add: e_def)
      with b have "\<bar>r - q\<bar> \<le> pow2 (- 1075)"
        by simp
      moreover have "0 \<le> pow2 (- 53) * \<bar>q\<bar>"
        using pow2_pos [of "- 53"] by simp
      ultimately show ?thesis by linarith
    qed
    from this f show ?thesis by (rule that)
  qed
qed

lemma fl_finite:
  assumes "(1 + pow2 (- 53)) * (\<bar>q\<bar> + pow2 (- 1022)) < pow2 1024"
  obtains r where "fl q = Fin r"
    and "\<bar>r\<bar> + pow2 (- 1022) \<le> (1 + pow2 (- 53)) * (\<bar>q\<bar> + pow2 (- 1022))"
proof -
  obtain r where e: "\<bar>r - q\<bar> \<le> pow2 (- 53) * \<bar>q\<bar> + pow2 (- 1075)"
    and f: "fl q = (if pow2 1024 \<le> \<bar>r\<bar> then (if 0 < q then PInf else NInf) else Fin r)"
    by (rule fl_cases)
  have "\<bar>r\<bar> \<le> \<bar>q\<bar> + (pow2 (- 53) * \<bar>q\<bar> + pow2 (- 1075))"
    using e by linarith
  then have b: "\<bar>r\<bar> + pow2 (- 1022) \<le> (1 + pow2 (- 53)) * (\<bar>q\<bar> + pow2 (- 1022))"
    by (simp add: pow2_1075 algebra_simps)
  with assms have "\<bar>r\<bar> < pow2 1024"
    using pow2_pos [of "- 1022"] by linarith
  with f have "fl q = Fin r" by simp
  from this b show ?thesis by (rule that)
qed

lemma foldl_headings_finite:
  assumes "map heading fs = map Fin hs"
    and "(1 + pow2 (- 53)) ^ length hs * (\<bar>a\<bar> + sum_list (map abs hs) + pow2 (- 1022))
           < pow2 1024"
  shows "\<exists>s. foldl (\<lambda>sum fr. jsadd sum (heading fr)) (Fin a) fs = Fin s
           \<and> \<bar>s\<bar> + pow2 (- 1022)
               \<le> (1 + pow2 (- 53)) ^ length hs
                    * (\<bar>a\<bar> + sum_list (map abs hs) + pow2 (- 1022))"
  using assms
proof (induction fs arbitrary: a hs)
  case Nil
  then show ?case by simp
next
  case (Cons f fs)
  define u where "u = pow2 (- 53)"
  define m where "m = pow2 (- 1022)"
  have u0: "0 < u" and m0: "0 < m"
    by (simp_all add: u_def m_def pow2_pos)
  from Cons.prems(1) obtain h hs' where hs: "hs = h # hs'"
    and hf: "heading f = Fin h" and mp: "map heading fs = map Fin hs'"
    by (cases hs) auto
  define S where "S = sum_list (map abs hs')"
  define P where "P = (1 + u) ^ length hs'"
  have S0: "0 \<le> S"
    unfolding S_def by (rule sum_list_nonneg) auto
  have P1: "1 \<le> P"
    unfolding P_def using u0 by (intro one_le_power) simp
  have big: "(1 + u) * P * (\<bar>a\<bar> + \<bar>h\<bar> + S + m) < pow2 1024"
    using Cons.prems(2) by (simp add: hs P_def S_def u_def m_def algebra_simps)
  have q: "(1 + u) * (\<bar>a + h\<bar> + m) \<le> (1 + u) * (\<bar>a\<bar> + \<bar>h\<bar> + m)"
    using u0 by (intro mult_left_mono) simp_all
  have low: "(1 + u) * (\<bar>a\<bar> + \<bar>h\<bar> + m) \<le> (1 + u) * P * (\<bar>a\<bar> + \<bar>h\<bar> + S + m)"
  proof -
    have "(1 + u) * (\<bar>a\<bar> + \<bar>h\<bar> + m) * 1 \<le> (1 + u) * (\<bar>a\<bar> + \<bar>h\<bar> + S + m) * P"
      using u0 m0 S0 P1 by (intro mult_mono) simp_all
    then show ?thesis by (simp add: algebra_simps)
  qed
  have "(1 + u) * (\<bar>a + h\<bar> + m) < pow2 1024"
    using q low big by linarith
  then obtain r where r: "fl (a + h) = Fin r"
    and rb: "\<bar>r\<bar> + m \<le> (1 + u) * (\<bar>a + h\<bar> + m)"
    unfolding u_def m_def by (rule fl_finite)
  have rS: "\<bar>r\<bar> + S + m \<le> (1 + u) * (\<bar>a\<bar> + \<bar>h\<bar> + S + m)"
  proof -
    have "S \<le> (1 + u) * S"
      using S0 u0 by (simp add: algebra_simps)
    with rb q show ?thesis
      by (simp add: algebra_simps)
  qed
  have step: "P * (\<bar>r\<bar> + S + m) \<le> P * ((1 + u) * (\<bar>a\<bar> + \<bar>h\<bar> + S + m))"
    using rS P1 by (intro mult_left_mono) simp_all
  then have "P * (\<bar>r\<bar> + S + m) < pow2 1024"
    using big by (simp add: algebra_simps)
  then have "(1 + pow2 (- 53)) ^ length hs' * (\<bar>r\<bar> + sum_list (map abs hs') + pow2 (- 1022))
               < pow2 1024"
    by (simp add: P_def S_def u_def m_def)
  from Cons.IH [OF mp this] obtain s where
    s: "foldl (\<lambda>sum fr. jsadd sum (heading fr)) (Fin r) fs = Fin s"
    and sb: "\<bar>s\<bar> + m \<le> P * (\<bar>r\<bar> + S + m)"
    by (auto simp: P_def S_def u_def m_def)
  have "foldl (\<lambda>sum fr. jsadd sum (heading fr)) (Fin a) (f # fs) = Fin s"
    by (simp add: hf r s)
  moreover have "\<bar>s\<bar> + m \<le> (1 + u) * P * (\<bar>a\<bar> + \<bar>h\<bar> + S + m)"
    using sb step by (simp add: algebra_simps)
  ultimately show ?case
    by (simp add: hs P_def S_def u_def m_def algebra_simps)
qed

lemma power_one_plus_le:
  fixes u :: rat
  assumes "0 \<le> u" and "2 * of_nat k * u \<le> 1"
  shows "(1 + u) ^ k \<le> 1 + 2 * of_nat k * u"
  using assms(2)
proof (induction k)
  case 0
  then show ?case by simp
next
  case (Suc k)
  have k: "2 * of_nat k * u \<le> 1"
    using Suc.prems assms(1) by (simp add: algebra_simps)
  from Suc.IH [OF this] have "(1 + u) ^ Suc k \<le> (1 + 2 * of_nat k * u) * (1 + u)"
    using assms(1) by (simp add: mult_right_mono mult.commute)
  also have "\<dots> = 1 + 2 * of_nat k * u + u + (2 * of_nat k * u) * u"
    by (simp add: algebra_simps)
  also have "\<dots> \<le> 1 + 2 * of_nat k * u + u + 1 * u"
    using k assms(1) by (intro add_left_mono mult_right_mono) simp_all
  also have "\<dots> = 1 + 2 * of_nat (Suc k) * u"
    by (simp add: algebra_simps)
  finally show ?case .
qed

lemma avgHeading_finite:
  assumes mp: "map heading (capturedFrames sd) = map Fin hs"
    and ne: "hs \<noteq> []"
    and len: "length hs < 2 ^ 52"
    and small: "sum_list (map abs hs) \<le> 2 ^ 1022"
  shows "\<exists>a. avgHeading sd = Fin a
           \<and> \<bar>a - sum_list hs / of_nat (length hs)\<bar>
               \<le> of_nat (length hs + 1) * pow2 (- 52)
                    * (sum_list (map abs hs) + pow2 (- 1022)) / of_nat (length hs)
                  + pow2 (- 1075)"
proof -
  define u where "u = pow2 (- 53)"
  define m where "m = pow2 (- 1022)"
  define n :: rat where "n = of_nat (length hs)"
  define A where "A = sum_list (map abs hs)"
  have u0: "0 < u" and m0: "0 < m"
    by (simp_all add: u_def m_def pow2_pos)
  have n1: "1 \<le> n"
    using ne by (cases hs) (simp_all add: n_def)
  have A0: "0 \<le> A"
    unfolding A_def by (rule sum_list_nonneg) auto
  have u2: "2 * u = pow2 (- 52)"
    using pow2_add [of 1 "- 53"] by (simp add: u_def pow2_def)
  have "of_nat (length hs + 1) \<le> (2::rat) ^ 52"
  proof -
    have "length hs + 1 \<le> 2 ^ 52"
      using len by simp
    then have "(of_nat (length hs + 1) :: rat) \<le> of_nat (2 ^ 52)"
      by (simp only: of_nat_le_iff)
    then show ?thesis by simp
  qed
  then have ku: "2 * of_nat (length hs + 1) * u \<le> 1"
    by (simp add: u_def pow2_def)
  have P: "(1 + u) ^ (length hs + 1) \<le> 1 + 2 * of_nat (length hs + 1) * u"
    using u0 ku by (intro power_one_plus_le) simp_all
  then have P2: "(1 + u) ^ (length hs + 1) \<le> 2"
    using ku by linarith
  have "m < 2 ^ 1022"
  proof -
    have "m \<le> pow2 0"
      unfolding m_def pow2_powi by (intro power_int_increasing) simp_all
    also have "pow2 0 < 2 ^ 1022"
      by (simp add: pow2_def)
    finally show ?thesis .
  qed
  with small have Am: "A + m < 2 ^ 1023"
    by (simp add: A_def)
  have Am0: "0 \<le> A + m"
    using A0 m0 by simp
  have top: "(1 + u) ^ (length hs + 1) * (A + m) < pow2 1024"
  proof -
    have "(1 + u) ^ (length hs + 1) * (A + m) \<le> 2 * (A + m)"
      using P2 Am0 by (intro mult_right_mono)
    also have "\<dots> < 2 * 2 ^ 1023"
      using Am by simp
    also have "\<dots> = pow2 1024"
      by (simp add: pow2_def)
    finally show ?thesis .
  qed
  have P0: "(1 + u) ^ length hs \<le> (1 + u) ^ (length hs + 1)"
    using u0 by (intro power_increasing) simp_all
  have "(1 + u) ^ length hs * (A + m) \<le> (1 + u) ^ (length hs + 1) * (A + m)"
    using P0 Am0 by (intro mult_right_mono)
  with top have "(1 + pow2 (- 53)) ^ length hs
                   * (\<bar>0\<bar> + sum_list (map abs hs) + pow2 (- 1022)) < pow2 1024"
    by (simp add: u_def m_def A_def)
  from foldl_headings_finite [OF mp this] obtain s where
    run: "foldl (\<lambda>sum fr. jsadd sum (heading fr)) (Fin 0) (capturedFrames sd) = Fin s"
    and sb: "\<bar>s\<bar> + m \<le> (1 + u) ^ length hs * (A + m)"
    by (auto simp: u_def m_def A_def)
  have "\<bar>s / n\<bar> \<le> \<bar>s\<bar>"
  proof -
    have "\<bar>s\<bar> / n \<le> \<bar>s\<bar> / 1"
      using n1 by (intro divide_left_mono) simp_all
    then show ?thesis
      using n1 by (simp add: abs_divide)
  qed
  then have "(1 + u) * (\<bar>s / n\<bar> + m) \<le> (1 + u) * (\<bar>s\<bar> + m)"
    using u0 by (intro mult_left_mono) simp_all
  also have "\<dots> \<le> (1 + u) * ((1 + u) ^ length hs * (A + m))"
    using sb u0 by (intro mult_left_mono) simp_all
  also have "\<dots> = (1 + u) ^ (length hs + 1) * (A + m)"
    by simp
  finally have "(1 + pow2 (- 53)) * (\<bar>s / n\<bar> + pow2 (- 1022)) < pow2 1024"
    using top by (simp add: u_def m_def)
  then obtain a where a: "fl (s / n) = Fin a"
    by (rule fl_finite)
  have len': "length (capturedFrames sd) = length hs"
    using mp by (metis length_map)
  have av: "avgHeading sd = Fin a"
    using ne a run by (simp add: avgHeading_def len' n_def)
  have "\<bar>a - sum_list hs / of_nat (length hs)\<bar>
          \<le> ((1 + u) ^ (length hs + 1) - 1) * (A + m) / n + pow2 (- 1075)"
    using avgHeading_error [OF av mp ne] by (simp add: u_def m_def A_def n_def)
  also have "((1 + u) ^ (length hs + 1) - 1) * (A + m) / n
               \<le> (2 * of_nat (length hs + 1) * u) * (A + m) / n"
    using P Am0 n1 by (intro divide_right_mono mult_right_mono) simp_all
  also have "2 * of_nat (length hs + 1) * u = of_nat (length hs + 1) * pow2 (- 52)"
    by (simp add: u2 [symmetric])
  finally show ?thesis
    using av by (simp add: A_def m_def n_def)
qed

section \<open>The average heading\<close>

lemma avgHeading_whole:
  assumes ne: "capturedFrames sd \<noteq> []"
    and m: "map heading (capturedFrames sd) = map (\<lambda>k. Fin (of_int k)) ks"
    and b: "\<forall>k \<in> set ks. \<bar>k\<bar> \<le> B"
    and n: "int (length ks) * B < 2 ^ 53"
  shows "avgHeading sd = fl (of_int (sum_list ks) / of_nat (length ks))
       \<and> (int (length ks) dvd sum_list ks \<longrightarrow>
            avgHeading sd = Fin (of_int (sum_list ks div int (length ks))))"
proof -
  define fs where "fs = capturedFrames sd"
  have len: "length fs = length ks"
    using m unfolding fs_def by (metis length_map)
  with ne have pos: "0 < length ks"
    unfolding fs_def by (cases "capturedFrames sd") auto
  have "foldl (\<lambda>sum fr. jsadd sum (heading fr)) (Fin (of_int 0)) fs
          = Fin (of_int (0 + sum_list ks))"
    unfolding fs_def by (rule foldl_headings_exact [OF m b]) (use n in simp)
  then have av: "avgHeading sd = fl (of_int (sum_list ks) / of_nat (length ks))"
    using pos by (simp add: avgHeading_def fs_def [symmetric] len)
  have "avgHeading sd = Fin (of_int (sum_list ks div int (length ks)))"
    if d: "int (length ks) dvd sum_list ks"
  proof -
    have "\<bar>sum_list ks\<bar> \<le> int (length ks) * B"
      using b
    proof (induction ks)
      case Nil
      then show ?case by simp
    next
      case (Cons k ks)
      then have "\<bar>sum_list ks\<bar> \<le> int (length ks) * B" and "\<bar>k\<bar> \<le> B"
        by simp_all
      then show ?case
        by (simp add: algebra_simps)
    qed
    moreover have "\<bar>sum_list ks div int (length ks)\<bar> \<le> \<bar>sum_list ks\<bar>"
    proof -
      from d obtain t where t: "sum_list ks = int (length ks) * t" ..
      have q: "sum_list ks div int (length ks) = t"
        using pos by (simp add: t)
      have "1 \<le> int (length ks)"
        using pos by linarith
      then have "\<bar>t\<bar> * 1 \<le> \<bar>t\<bar> * int (length ks)"
        by (intro mult_left_mono) simp_all
      then show ?thesis
        unfolding q by (simp add: t abs_mult mult.commute)
    qed
    ultimately have "\<bar>sum_list ks div int (length ks)\<bar> < 2 ^ 53"
      using n by linarith
    moreover have "(of_int (sum_list ks) :: rat) / of_nat (length ks)
                     = of_int (sum_list ks div int (length ks))"
    proof -
      from d obtain t where t: "sum_list ks = int (length ks) * t" ..
      have "sum_list ks div int (length ks) = t"
        using pos by (simp add: t)
      moreover have "(of_int (sum_list ks) :: rat) / of_nat (length ks) = of_int t"
        using pos by (simp add: t)
      ultimately show ?thesis by simp
    qed
    ultimately show ?thesis
      using fl_of_int by (simp add: av)
  qed
  with av show ?thesis by blast
qed

lemma average_in_query:
  "sublist (''Average Heading: '' @ toFixed 1 (avgHeading sd) @ '' degrees.'')
     (if deep then deepQuery sd c else standardQuery sd c)"
proof -
  have "sublist (''Average Heading: '' @ toFixed 1 (avgHeading sd) @ '' degrees.'')
          (''- Scan Data: Average Heading: '' @ toFixed 1 (avgHeading sd) @
           '' degrees. Zones Covered: '' @ vastuZonesObserved sd @ ''.'')"
  proof -
    have "''- Scan Data: Average Heading: '' @ toFixed 1 (avgHeading sd) @
            '' degrees. Zones Covered: '' @ vastuZonesObserved sd @ ''.''
          = ''- Scan Data: '' @
            (''Average Heading: '' @ toFixed 1 (avgHeading sd) @ '' degrees.'') @
            ('' Zones Covered: '' @ vastuZonesObserved sd @ ''.'')"
      by simp
    then show ?thesis
      by (metis sublist_appendI)
  qed
  then show ?thesis
    by (rule sublist_trans [OF _ query_scan_line])
qed

text \<open>
  A heading that is not finite (\<open>1e999\<close> is read as \<open>Infinity\<close>) leaves no finite
  average: there is no mean to compare with.
\<close>

lemma jsadd_not_finite:
  assumes "\<And>a. y \<noteq> Fin a"
  shows "jsadd x y \<noteq> Fin s"
  using assms by (cases x; cases y) auto

lemma foldl_heading_not_finite:
  assumes "f \<in> set fs" and "\<And>a. heading f \<noteq> Fin a"
  shows "foldl (\<lambda>sum fr. jsadd sum (heading fr)) x fs \<noteq> Fin s"
  using assms(1)
proof (induction fs arbitrary: x)
  case Nil
  then show ?case by simp
next
  case (Cons g fs)
  show ?case
  proof (cases "f = g")
    case True
    have "\<And>a. jsadd x (heading g) \<noteq> Fin a"
      using assms(2) True by (intro jsadd_not_finite) simp
    then show ?thesis
      by (simp add: foldl_not_finite)
  next
    case False
    with Cons.prems have "f \<in> set fs"
      by simp
    then show ?thesis
      by (simp add: Cons.IH)
  qed
qed

lemma avgHeading_not_finite:
  assumes "f \<in> set (capturedFrames sd)" and "\<And>a. heading f \<noteq> Fin a"
  shows "avgHeading sd \<noteq> Fin s"
proof -
  have "\<And>s. foldl (\<lambda>sum fr. jsadd sum (heading fr)) (Fin 0) (capturedFrames sd) \<noteq> Fin s"
    using assms by (rule foldl_heading_not_finite)
  then show ?thesis
    unfolding avgHeading_def
    by (cases "foldl (\<lambda>sum fr. jsadd sum (heading fr)) (Fin 0) (capturedFrames sd)") auto
qed

subsection \<open>A rounding example\<close>

text \<open>
  The headings 104.45 and 48.25: the first is read as the nearest binary64 number, a
  little above 104.45; the sum of the two lies halfway between two binary64 numbers and
  is rounded to the even one, the lower; halving is exact.
\<close>

lemma fl_104_45: "fl (10445 / 100) = Fin (7350015329357005 / 70368744177664)"
  by code_simp

lemma fl_48_25: "fl (193 / 4) = Fin (193 / 4)"
  by code_simp

lemma rounding_sum_first:
  "jsadd (Fin 0) (Fin (7350015329357005 / 70368744177664))
     = Fin (7350015329357005 / 70368744177664)"
  by code_simp

lemma rounding_sum_second:
  "jsadd (Fin (7350015329357005 / 70368744177664)) (Fin (193 / 4))
     = Fin (2686326808982323 / 17592186044416)"
  by code_simp

lemma rounding_quotient:
  "divLength (Fin (2686326808982323 / 17592186044416)) (Suc (Suc 0))
     = Fin (2686326808982323 / 35184372088832)"
  by code_simp

lemma rounding_headings:
  "map heading (capturedFrames (sampleScan roundingFrames))
     = [Fin (7350015329357005 / 70368744177664), Fin (193 / 4)]"
  unfolding sampleScan_def roundingFrames_def fl_104_45 fl_48_25 by simp

lemma rounding_average:
  "avgHeading (sampleScan roundingFrames) = Fin (2686326808982323 / 35184372088832)"
proof -
  have "foldl (\<lambda>sum fr. jsadd sum (heading fr)) (Fin 0)
          (capturedFrames (sampleScan roundingFrames))
          = foldl jsadd (Fin 0) (map heading (capturedFrames (sampleScan roundingFrames)))"
    by (simp only: foldl_map)
  also have "\<dots> = Fin (2686326808982323 / 17592186044416)"
    unfolding rounding_headings foldl.simps rounding_sum_first rounding_sum_second ..
  finally have "foldl (\<lambda>sum fr. jsadd sum (heading fr)) (Fin 0)
                  (capturedFrames (sampleScan roundingFrames))
                  = Fin (2686326808982323 / 17592186044416)" .
  moreover have "length (capturedFrames (sampleScan roundingFrames)) = Suc (Suc 0)"
    by (simp add: sampleScan_def roundingFrames_def)
  ultimately show ?thesis
    unfolding avgHeading_def by (simp only: rounding_quotient)
qed

lemma toFixed_76_3: "toFixed 1 (Fin (2686326808982323 / 35184372088832)) = ''76.3''"
  by code_simp

lemma toFixed_76_4: "toFixed 1 (Fin (10745307235929293 / 140737488355328)) = ''76.4''"
  by code_simp

lemma toFixed_76_35: "toFixed 1 (Fin (1527 / 20)) = ''76.4''"
  by code_simp

subsection \<open>The average and the mean\<close>

text \<open>
  Claim C7, as the code has it. The claim says that for every non-empty list of frames
  the prompt shows the arithmetic mean of the headings with one decimal. The sum and the
  quotient are binary64 operations, each rounded. Two frames with the headings 104.45
  and 48.25 have, as binary64 numbers, a mean just above 76.35, which one decimal shows
  as \<open>76.4\<close>, and so does the mean 76.35 of the two decimal numbers; the program
  computes a number just below 76.35, and the prompt says \<open>76.3\<close>.
\<close>

theorem average_heading_rounding_counterexample:
  "capturedFrames (sampleScan roundingFrames) \<noteq> []
   \<and> map heading (capturedFrames (sampleScan roundingFrames))
       = map Fin [7350015329357005 / 70368744177664, 193 / 4]
   \<and> sum_list [7350015329357005 / 70368744177664, 193 / 4] / 2
       = (10745307235929293 / 140737488355328 :: rat)
   \<and> toFixed 1 (Fin (10745307235929293 / 140737488355328)) = ''76.4''
   \<and> toFixed 1 (Fin ((10445 / 100 + 193 / 4) / 2)) = ''76.4''
   \<and> avgHeading (sampleScan roundingFrames) = Fin (2686326808982323 / 35184372088832)
   \<and> toFixed 1 (avgHeading (sampleScan roundingFrames)) = ''76.3''
   \<and> getAiQuery (sampleScan roundingFrames) False (Str ''CoreAssessmentMock'')
       = Inr (standardQuery (sampleScan roundingFrames) ''CoreAssessmentMock'')
   \<and> sublist ''- Scan Data: Average Heading: 76.3 degrees. Zones Covered: East, North-East.''
        (standardQuery (sampleScan roundingFrames) ''CoreAssessmentMock'')"
proof -
  have ne: "capturedFrames (sampleScan roundingFrames) \<noteq> []"
    by (simp add: sampleScan_def roundingFrames_def)
  have hs: "map heading (capturedFrames (sampleScan roundingFrames))
              = map Fin [7350015329357005 / 70368744177664, 193 / 4]"
    unfolding rounding_headings by simp
  have mean: "sum_list [7350015329357005 / 70368744177664, 193 / 4] / 2
                = (10745307235929293 / 140737488355328 :: rat)"
    by simp
  have dec: "toFixed 1 (Fin ((10445 / 100 + 193 / 4) / 2)) = ''76.4''"
  proof -
    have "((10445 / 100 + 193 / 4) / 2 :: rat) = 1527 / 20"
      by simp
    then show ?thesis
      by (simp only: toFixed_76_35)
  qed
  have shown: "toFixed 1 (avgHeading (sampleScan roundingFrames)) = ''76.3''"
    by (simp only: rounding_average toFixed_76_3)
  have q: "getAiQuery (sampleScan roundingFrames) False (Str ''CoreAssessmentMock'')
             = Inr (standardQuery (sampleScan roundingFrames) ''CoreAssessmentMock'')"
    by (simp add: getAiQuery_def)
  have z: "vastuZonesObserved (sampleScan roundingFrames) = ''East, North-East''"
    by code_simp
  have "sublist (''- Scan Data: Average Heading: ''
                   @ toFixed 1 (avgHeading (sampleScan roundingFrames))
                   @ '' degrees. Zones Covered: ''
                   @ vastuZonesObserved (sampleScan roundingFrames) @ ''.'')
          (standardQuery (sampleScan roundingFrames) ''CoreAssessmentMock'')"
    using query_scan_line [of "sampleScan roundingFrames" False "''CoreAssessmentMock''"]
    by simp
  then have line: "sublist
      ''- Scan Data: Average Heading: 76.3 degrees. Zones Covered: East, North-East.''
      (standardQuery (sampleScan roundingFrames) ''CoreAssessmentMock'')"
    unfolding shown z by simp
  from ne hs mean toFixed_76_4 dec rounding_average shown q line show ?thesis
    by blast
qed

text \<open>
  Claim C7, amended. For a scan with at least one frame, the Stage-2 prompt shows, in
  both templates, the one-decimal text of the average heading that the program computes:
  the headings added up in frame order from 0 and the sum divided by the number of
  frames, each operation rounded to binary64. For \<open>N\<close> finite headings \<open>h\<close> with
  \<open>N < 2 ^ 52\<close> and \<open>\<bar>h\<^sub>1\<bar> + \<dots> + \<bar>h\<^sub>N\<bar> \<le> 2 ^ 1022\<close> the average is finite and differs
  from the arithmetic mean of the headings by at most
  \<open>(N + 1) * 2 ^ -52 * (\<bar>h\<^sub>1\<bar> + \<dots> + \<bar>h\<^sub>N\<bar> + 2 ^ -1022) / N + 2 ^ -1075\<close>; whenever the
  average is finite it differs from the mean by at most
  \<open>((1 + 2 ^ -53) ^ (N + 1) - 1) * (\<bar>h\<^sub>1\<bar> + \<dots> + \<bar>h\<^sub>N\<bar> + 2 ^ -1022) / N + 2 ^ -1075\<close>.
  For whole-number headings of magnitude at most \<open>B\<close> with \<open>N * B < 2 ^ 53\<close> the
  average is the arithmetic mean rounded once to binary64, and the mean itself when that
  is a whole number. Headings 10, 20, 30 give 20, shown as \<open>20.0\<close>.
\<close>

theorem average_heading_near_mean:
  fixes sd :: scanData
  defines "fs \<equiv> capturedFrames sd"
  assumes ne: "fs \<noteq> []"
  shows "sublist (''Average Heading: '' @ toFixed 1 (avgHeading sd) @ '' degrees.'')
           (if deep then deepQuery sd c else standardQuery sd c)
       \<and> (map heading fs = map Fin hs \<and> length hs < 2 ^ 52
            \<and> sum_list (map abs hs) \<le> 2 ^ 1022 \<longrightarrow>
            (\<exists>a. avgHeading sd = Fin a
               \<and> \<bar>a - sum_list hs / of_nat (length hs)\<bar>
                   \<le> of_nat (length hs + 1) * pow2 (- 52)
                        * (sum_list (map abs hs) + pow2 (- 1022)) / of_nat (length hs)
                      + pow2 (- 1075)))
       \<and> (map heading fs = map Fin hs \<and> avgHeading sd = Fin a \<longrightarrow>
            \<bar>a - sum_list hs / of_nat (length hs)\<bar>
              \<le> ((1 + pow2 (- 53)) ^ (length hs + 1) - 1)
                   * (sum_list (map abs hs) + pow2 (- 1022)) / of_nat (length hs)
                 + pow2 (- 1075))
       \<and> (map heading fs = map (\<lambda>k. Fin (of_int k)) ks \<and> (\<forall>k \<in> set ks. \<bar>k\<bar> \<le> B)
            \<and> int (length ks) * B < 2 ^ 53 \<longrightarrow>
            avgHeading sd = fl (of_int (sum_list ks) / of_nat (length ks))
          \<and> (int (length ks) dvd sum_list ks \<longrightarrow>
               avgHeading sd = Fin (of_int (sum_list ks div int (length ks)))))
       \<and> (map heading fs = [Fin 10, Fin 20, Fin 30] \<longrightarrow>
            avgHeading sd = Fin 20 \<and> toFixed 1 (avgHeading sd) = ''20.0'')"
proof -
  have 1: "sublist (''Average Heading: '' @ toFixed 1 (avgHeading sd) @ '' degrees.'')
             (if deep then deepQuery sd c else standardQuery sd c)"
    by (rule average_in_query)
  have nonempty: "hs \<noteq> []" if m: "map heading fs = map Fin hs" for hs
  proof -
    have "length fs = length hs"
      using m by (metis length_map)
    with ne show ?thesis
      by auto
  qed
  have 2: "\<exists>a. avgHeading sd = Fin a
             \<and> \<bar>a - sum_list hs / of_nat (length hs)\<bar>
                 \<le> of_nat (length hs + 1) * pow2 (- 52)
                      * (sum_list (map abs hs) + pow2 (- 1022)) / of_nat (length hs)
                    + pow2 (- 1075)"
    if m: "map heading fs = map Fin hs" and "length hs < 2 ^ 52"
      and "sum_list (map abs hs) \<le> 2 ^ 1022"
    using that nonempty [OF m] unfolding fs_def by (intro avgHeading_finite)
  have 3: "\<bar>a - sum_list hs / of_nat (length hs)\<bar>
             \<le> ((1 + pow2 (- 53)) ^ (length hs + 1) - 1)
                  * (sum_list (map abs hs) + pow2 (- 1022)) / of_nat (length hs)
                + pow2 (- 1075)"
    if m: "map heading fs = map Fin hs" and "avgHeading sd = Fin a"
    using that nonempty [OF m] unfolding fs_def by (intro avgHeading_error)
  have 4: "avgHeading sd = fl (of_int (sum_list ks) / of_nat (length ks))
         \<and> (int (length ks) dvd sum_list ks \<longrightarrow>
              avgHeading sd = Fin (of_int (sum_list ks div int (length ks))))"
    if "map heading fs = map (\<lambda>k. Fin (of_int k)) ks"
      and "\<forall>k \<in> set ks. \<bar>k\<bar> \<le> B" and "int (length ks) * B < 2 ^ 53"
    using ne that unfolding fs_def by (rule avgHeading_whole)
  have 5: "avgHeading sd = Fin 20 \<and> toFixed 1 (avgHeading sd) = ''20.0''"
    if m: "map heading fs = [Fin 10, Fin 20, Fin 30]"
  proof -
    have "map heading (capturedFrames sd) = map (\<lambda>k. Fin (of_int k)) [10, 20, 30]"
      using m by (simp add: fs_def)
    moreover have "\<forall>k \<in> set [10, 20, 30 :: int]. \<bar>k\<bar> \<le> 30"
      by simp
    moreover have "int (length [10, 20, 30 :: int]) * 30 < 2 ^ 53"
      by simp
    ultimately have "int (length [10, 20, 30 :: int]) dvd sum_list [10, 20, 30] \<longrightarrow>
        avgHeading sd
          = Fin (of_int (sum_list [10, 20, 30] div int (length [10, 20, 30 :: int])))"
      using ne avgHeading_whole [of sd "[10, 20, 30]" 30] unfolding fs_def by blast
    then have "avgHeading sd = Fin 20"
      by simp
    then show ?thesis
      by (simp only: toFixed_20)
  qed
  from 1 2 3 4 5 show ?thesis by blast
qed

theorem average_heading_near_mean_witness:
  "capturedFrames (sampleScan sampleFrames) \<noteq> []
   \<and> map heading (capturedFrames (sampleScan sampleFrames)) = [Fin 10, Fin 20, Fin 30]
   \<and> avgHeading (sampleScan sampleFrames) = Fin 20
   \<and> toFixed 1 (avgHeading (sampleScan sampleFrames)) = ''20.0''
   \<and> avgHeading (sampleScan sampleFrames) = fl (of_int (sum_list [10, 20, 30]) / 3)
   \<and> (\<exists>a. avgHeading (sampleScan sampleFrames) = Fin a
         \<and> \<bar>a - sum_list [10, 20, 30] / 3\<bar>
             \<le> 4 * pow2 (- 52) * (60 + pow2 (- 1022)) / 3 + pow2 (- 1075))
   \<and> \<bar>20 - sum_list [10, 20, 30] / 3\<bar>
       \<le> ((1 + pow2 (- 53)) ^ 4 - 1) * (60 + pow2 (- 1022)) / 3 + pow2 (- 1075)
   \<and> sublist ''Average Heading: 20.0 degrees.''
        (standardQuery (sampleScan sampleFrames) ''CoreAssessmentMock'')
   \<and> capturedFrames (sampleScan roundingFrames) \<noteq> []
   \<and> (\<exists>a. avgHeading (sampleScan roundingFrames) = Fin a
         \<and> \<bar>a - sum_list [7350015329357005 / 70368744177664, 193 / 4] / 2\<bar>
             \<le> 3 * pow2 (- 52)
                  * (sum_list [7350015329357005 / 70368744177664, 193 / 4] + pow2 (- 1022)) / 2
                + pow2 (- 1075))"
proof -
  have ne: "capturedFrames (sampleScan sampleFrames) \<noteq> []"
    by (simp add: sampleScan_def sampleFrames_def)
  have hs: "map heading (capturedFrames (sampleScan sampleFrames)) = [Fin 10, Fin 20, Fin 30]"
    by (simp add: sampleScan_def sampleFrames_def)
  note t = average_heading_near_mean
    [OF ne, where hs = "[10, 20, 30]" and a = 20 and ks = "[10, 20, 30]" and B = 30
       and deep = False and c = "''CoreAssessmentMock''"]
  note t1 = t [THEN conjunct1]
  note t2 = t [THEN conjunct2, THEN conjunct1]
  note t3 = t [THEN conjunct2, THEN conjunct2, THEN conjunct1]
  note t4 = t [THEN conjunct2, THEN conjunct2, THEN conjunct2, THEN conjunct1]
  note t5 = t [THEN conjunct2, THEN conjunct2, THEN conjunct2, THEN conjunct2]
  have av: "avgHeading (sampleScan sampleFrames) = Fin 20"
    and shown: "toFixed 1 (avgHeading (sampleScan sampleFrames)) = ''20.0''"
    using t5 hs by blast+
  have once: "avgHeading (sampleScan sampleFrames) = fl (of_int (sum_list [10, 20, 30]) / 3)"
    using t4 by (simp (no_asm_use) add: hs) blast
  have near: "\<exists>a. avgHeading (sampleScan sampleFrames) = Fin a
         \<and> \<bar>a - sum_list [10, 20, 30] / 3\<bar>
             \<le> 4 * pow2 (- 52) * (60 + pow2 (- 1022)) / 3 + pow2 (- 1075)"
    using t2 by (simp (no_asm_use) add: hs)
  have tight: "\<bar>20 - sum_list [10, 20, 30] / 3\<bar>
       \<le> ((1 + pow2 (- 53)) ^ 4 - 1) * (60 + pow2 (- 1022)) / 3 + pow2 (- 1075)"
  proof -
    have "map heading (capturedFrames (sampleScan sampleFrames)) = map Fin [10, 20, 30]"
      by (simp add: hs)
    with t3 av show ?thesis
      by (simp add: eval_nat_numeral)
  qed
  have "sublist (''Average Heading: '' @ toFixed 1 (avgHeading (sampleScan sampleFrames)) @
                 '' degrees.'')
          (standardQuery (sampleScan sampleFrames) ''CoreAssessmentMock'')"
    using t1 by simp
  then have line: "sublist ''Average Heading: 20.0 degrees.''
               (standardQuery (sampleScan sampleFrames) ''CoreAssessmentMock'')"
    unfolding shown by simp
  have ne': "capturedFrames (sampleScan roundingFrames) \<noteq> []"
    by (simp add: sampleScan_def roundingFrames_def)
  have near': "\<exists>a. avgHeading (sampleScan roundingFrames) = Fin a
         \<and> \<bar>a - sum_list [7350015329357005 / 70368744177664, 193 / 4] / 2\<bar>
             \<le> 3 * pow2 (- 52)
                  * (sum_list [7350015329357005 / 70368744177664, 193 / 4] + pow2 (- 1022)) / 2
                + pow2 (- 1075)"
    using average_heading_near_mean
      [OF ne', where hs = "[7350015329357005 / 70368744177664, 193 / 4]",
       THEN conjunct2, THEN conjunct1]
    by (simp (no_asm_use) add: rounding_headings)
  from ne hs av shown once near tight line ne' near' show ?thesis
    by blast
qed

section \<open>A pattern in a text with gaps\<close>

lemma comparable_iff: "comparable xs ys \<longleftrightarrow> prefix xs ys \<or> prefix ys xs"
  by (induction xs ys rule: comparable.induct) auto

lemma comparable_sym: "comparable xs ys \<longleftrightarrow> comparable ys xs"
  by (auto simp: comparable_iff)

lemma startsIn_iff: "startsIn m l \<longleftrightarrow> (\<exists>s. suffix s l \<and> s \<noteq> [] \<and> comparable m s)"
proof (induction l)
  case Nil
  then show ?case by simp
next
  case (Cons x l)
  show ?case
  proof
    assume "startsIn m (x # l)"
    then consider "comparable m (x # l)" | "startsIn m l"
      by (auto split: if_splits)
    then show "\<exists>s. suffix s (x # l) \<and> s \<noteq> [] \<and> comparable m s"
    proof cases
      case 1
      then show ?thesis by (intro exI [of _ "x # l"]) simp
    next
      case 2
      with Cons obtain s where "suffix s l" "s \<noteq> []" "comparable m s" by blast
      then show ?thesis by (intro exI [of _ s]) (simp add: suffix_ConsI)
    qed
  next
    assume "\<exists>s. suffix s (x # l) \<and> s \<noteq> [] \<and> comparable m s"
    then obtain s where s: "suffix s (x # l)" "s \<noteq> []" "comparable m s" by blast
    from s(1) have "s = x # l \<or> suffix s l"
      by (simp add: suffix_Cons)
    with s Cons show "startsIn m (x # l)"
      by auto
  qed
qed

lemma both_prefixes_comparable:
  assumes "prefix xs zs" and "prefix ys zs"
  shows "comparable xs ys"
  using assms by (metis comparable_iff prefix_same_cases)

lemma sublist_front:
  assumes "sublist m (l @ b)" and "m \<noteq> []"
  shows "startsIn m l \<or> sublist m b"
  using assms
proof (induction l)
  case Nil
  then show ?case by simp
next
  case (Cons x l)
  from Cons.prems(1) have "prefix m ((x # l) @ b) \<or> sublist m (l @ b)"
    by (simp add: sublist_Cons_right)
  then show ?case
  proof
    assume p: "prefix m ((x # l) @ b)"
    have "prefix (x # l) ((x # l) @ b)" by simp
    with p have "comparable m (x # l)"
      by (rule both_prefixes_comparable)
    then show ?thesis by simp
  next
    assume "sublist m (l @ b)"
    with Cons show ?thesis by auto
  qed
qed

lemma sublist_split:
  assumes "sublist m (a @ l @ b)" and "m \<noteq> []" and "l \<noteq> []"
  shows "sublist m a \<or> sublist m b \<or> touches m l"
  using assms(1)
proof (induction a)
  case Nil
  then show ?case
    using sublist_front [of m l b] assms(2) by (auto simp: touches_def)
next
  case (Cons x a)
  from Cons.prems have "prefix m (x # a @ l @ b) \<or> sublist m (a @ l @ b)"
    by (simp add: sublist_Cons_right)
  then show ?case
  proof
    assume p: "prefix m (x # a @ l @ b)"
    then have p': "prefix m ((x # a) @ (l @ b))" by simp
    show ?thesis
    proof (cases "prefix m (x # a)")
      case True
      then show ?thesis by (simp add: prefix_imp_sublist)
    next
      case False
      with p' have "\<exists>us. m = (x # a) @ us \<and> prefix us (l @ b)"
        unfolding prefix_append [of m "x # a" "l @ b"] by blast
      then obtain m' where m: "m = (x # a) @ m'" and m': "prefix m' (l @ b)"
        by blast
      from False m have ne: "m' \<noteq> []" by auto
      have "prefix l (l @ b)" by simp
      with m' have c: "comparable l m'"
        by (metis both_prefixes_comparable)
      have "suffix m' (tl m)"
        by (simp add: m suffix_def)
      with ne c have "startsIn l (tl m)"
        unfolding startsIn_iff by blast
      then show ?thesis by (simp add: touches_def)
    qed
  next
    assume "sublist m (a @ l @ b)"
    with Cons.IH show ?thesis
      by (auto intro: sublist_Cons_right [THEN iffD2])
  qed
qed

lemma weave_starts: "\<exists>r. weave l ps = l @ r"
  by (cases ps) auto

lemma sublist_weave:
  assumes "sublist m (weave l ps)" and "m \<noteq> []"
    and "l \<noteq> []" and "\<not> touches m l"
    and "\<forall>(v, l') \<in> set ps. l' \<noteq> [] \<and> \<not> touches m l'"
  shows "\<exists>(v, l') \<in> set ps. sublist m v"
  using assms
proof (induction ps arbitrary: l)
  case Nil
  then have "sublist m ([] @ l @ [])" by simp
  from sublist_split [OF this Nil.prems(2,3)] Nil.prems show ?case by simp
next
  case (Cons p ps)
  obtain v l' where p: "p = (v, l')" by (cases p)
  from Cons.prems(1) have "sublist m ([] @ l @ (v @ weave l' ps))"
    by (simp add: p)
  from sublist_split [OF this Cons.prems(2,3)] Cons.prems(2,4)
  have s: "sublist m (v @ weave l' ps)" by simp
  obtain r where r: "weave l' ps = l' @ r"
    using weave_starts by blast
  have l': "l' \<noteq> []" "\<not> touches m l'"
    using Cons.prems(5) by (simp_all add: p)
  from s have "sublist m (v @ l' @ r)" by (simp add: r)
  from sublist_split [OF this Cons.prems(2) l'(1)] l'(2)
  have "sublist m v \<or> sublist m r" by simp
  then show ?case
  proof
    assume "sublist m v"
    then show ?thesis by (simp add: p)
  next
    assume "sublist m r"
    then have "sublist m (weave l' ps)"
      unfolding r by (rule sublist_skip)
    from Cons.IH [OF this Cons.prems(2) l'] Cons.prems(5)
    show ?thesis by auto
  qed
qed


section \<open>Number text has no asterisk\<close>

lemma digitChar_plain: "digitChar d \<noteq> CHR ''*''"
proof -
  have "d mod 10 < length ''0123456789''"
    by simp
  then have "''0123456789'' ! (d mod 10) \<in> set ''0123456789''"
    by (rule nth_mem)
  then show ?thesis
    unfolding digitChar_def by auto
qed

lemma decimal_plain: "CHR ''*'' \<notin> set (decimal n)"
proof (induction n rule: decimal.induct)
  case (1 n)
  show ?case
  proof (cases "n < 10")
    case True
    then show ?thesis
      using digitChar_plain [of n] by (subst decimal.simps) auto
  next
    case False
    with 1 have "CHR ''*'' \<notin> set (decimal (n div 10))" by simp
    with False show ?thesis
      using digitChar_plain [of "n mod 10"] by (subst decimal.simps) auto
  qed
qed

lemma posToString_plain: "CHR ''*'' \<notin> set (posToString x)"
  using decimal_plain
  by (auto simp: posToString_def Let_def split: prod.splits if_splits
      dest!: in_set_takeD in_set_dropD)

lemma numToString_plain: "CHR ''*'' \<notin> set (numToString x)"
  by (cases x) (simp_all add: posToString_plain)

lemma toFixed_plain: "CHR ''*'' \<notin> set (toFixed f x)"
proof (cases x)
  case (Fin q)
  show ?thesis
    using decimal_plain posToString_plain
    by (auto simp: Fin toFixed.simps Let_def split: if_splits
        dest!: in_set_takeD in_set_dropD)
qed (simp_all add: toFixed.simps)

lemma marker_not_in_plain:
  assumes "CHR ''*'' \<in> set m" and "CHR ''*'' \<notin> set v"
  shows "\<not> sublist m v"
  using assms set_mono_sublist by fastforce

section \<open>The two templates as texts with gaps\<close>

lemma deepQuery_weave:
  "deepQuery sd c =
     weave (hd deepLines)
       (zip
         [[], [], [], [], [], [], c, [], [], [], currentRoomTag sd, [],
          currentRoomTag sd, strOr (roomLocationInHouse sd) ''UNKNOWN'', [],
          floorOr (floorNumber sd) ''N/A'', [], holisticIssues sd, [],
          holisticSurroundings sd, [], toFixed 1 (avgHeading sd), vastuZonesObserved sd,
          [], [], [], [], [], [], [], [], [], [], [], [], [], [], [], [], [], [], [], [],
          []]
         (tl deepLines))"
  by (simp add: deepQuery_def sharedContext_def deepLines_def)

lemma standardQuery_weave:
  "standardQuery sd c =
     weave (hd standardLines)
       (zip
         [[], [], [], [], [], [], c, [], [], [], currentRoomTag sd, [],
          currentRoomTag sd, strOr (roomLocationInHouse sd) ''UNKNOWN'', [],
          floorOr (floorNumber sd) ''N/A'', [], holisticIssues sd, [],
          holisticSurroundings sd, [], toFixed 1 (avgHeading sd), vastuZonesObserved sd,
          [], [], [], [], [], [], [], [], currentRoomTag sd, roomLocationInHouse sd, [],
          [], [], [], [], [], [], [], [], [], [], [], [], [], []]
         (tl standardLines))"
  by (simp add: standardQuery_def sharedContext_def standardLines_def)

lemma deepLines_clear:
  "list_all (\<lambda>m. m \<noteq> [] \<and> list_all (\<lambda>l. l \<noteq> [] \<and> \<not> touches m l) deepLines)
     standardMarkers"
  by code_simp

lemma standardLines_clear:
  "list_all (\<lambda>m. m \<noteq> [] \<and> list_all (\<lambda>l. l \<noteq> [] \<and> \<not> touches m l) standardLines)
     deepMarkers"
  by code_simp

lemma deepLines_own:
  "list_all (\<lambda>m. list_ex (\<lambda>l. sublist m l) deepLines) deepMarkers"
  by code_simp

lemma standardLines_own:
  "list_all (\<lambda>m. list_ex (\<lambda>l. sublist m l) standardLines) standardMarkers"
  by code_simp

lemma markers_starred:
  "list_all (\<lambda>m. CHR ''*'' \<in> set m) (standardMarkers @ deepMarkers)"
  by code_simp

section \<open>Where a marker can occur\<close>

lemma gap_in_weave: "(v, l') \<in> set ps \<Longrightarrow> sublist v (weave l ps)"
proof (induction ps arbitrary: l)
  case Nil
  then show ?case by simp
next
  case (Cons p ps)
  obtain v0 l0 where p: "p = (v0, l0)" by (cases p)
  from Cons.prems consider "(v, l') = (v0, l0)" | "(v, l') \<in> set ps"
    by (auto simp: p)
  then show ?case
  proof cases
    case 1
    then show ?thesis
      by (simp add: p sublist_skip)
  next
    case 2
    then have "sublist v (weave l0 ps)" by (rule Cons.IH)
    then show ?thesis
      by (simp add: p sublist_skip)
  qed
qed

lemma line_in_weave: "(v, l') \<in> set ps \<Longrightarrow> sublist l' (weave l ps)"
proof (induction ps arbitrary: l)
  case Nil
  then show ?case by simp
next
  case (Cons p ps)
  obtain v0 l0 where p: "p = (v0, l0)" by (cases p)
  obtain r where r: "weave l0 ps = l0 @ r"
    using weave_starts by blast
  from Cons.prems consider "(v, l') = (v0, l0)" | "(v, l') \<in> set ps"
    by (auto simp: p)
  then show ?case
  proof cases
    case 1
    then have "sublist l' (weave l0 ps)"
      by (simp add: r)
    then show ?thesis
      by (simp add: p sublist_skip)
  next
    case 2
    then have "sublist l' (weave l0 ps)" by (rule Cons.IH)
    then show ?thesis
      by (simp add: p sublist_skip)
  qed
qed

lemma marker_in_gap:
  assumes "sublist m (weave (hd ls) (zip gs (tl ls)))"
    and "m \<noteq> []" and "ls \<noteq> []"
    and "list_all (\<lambda>l. l \<noteq> [] \<and> \<not> touches m l) ls"
  shows "\<exists>v \<in> set gs. sublist m v"
proof -
  have all: "\<forall>l \<in> set ls. l \<noteq> [] \<and> \<not> touches m l"
    using assms(4) by (simp add: list_all_iff)
  have "hd ls \<in> set ls"
    using assms(3) by simp
  with all have h: "hd ls \<noteq> []" "\<not> touches m (hd ls)"
    by blast+
  have "\<forall>(v, l') \<in> set (zip gs (tl ls)). l' \<noteq> [] \<and> \<not> touches m l'"
    using all by (auto dest!: set_zip_rightD list.set_sel(2) [OF assms(3)])
  from sublist_weave [OF assms(1,2) h this]
  show ?thesis
    by (auto dest: set_zip_leftD)
qed

lemma text_in_weave:
  assumes "length gs = length (tl ls)" and "ls \<noteq> []"
  shows "v \<in> set gs \<Longrightarrow> sublist v (weave (hd ls) (zip gs (tl ls)))"
    and "l \<in> set ls \<Longrightarrow> sublist l (weave (hd ls) (zip gs (tl ls)))"
proof -
  show "sublist v (weave (hd ls) (zip gs (tl ls)))" if "v \<in> set gs"
    using in_set_impl_in_set_zip1 [OF assms(1) that] gap_in_weave by metis
  show "sublist l (weave (hd ls) (zip gs (tl ls)))" if "l \<in> set ls"
  proof (cases "l = hd ls")
    case True
    then show ?thesis
      using weave_starts [of "hd ls" "zip gs (tl ls)"] by auto
  next
    case False
    with that assms(2) have "l \<in> set (tl ls)"
      by (cases ls) auto
    then show ?thesis
      using in_set_impl_in_set_zip2 [OF assms(1)] line_in_weave by metis
  qed
qed

lemma deepLines_length: "deepLines \<noteq> []" "length deepLines = 45"
  by (simp_all add: deepLines_def)

lemma standardLines_length: "standardLines \<noteq> []" "length standardLines = 49"
  by (simp_all add: standardLines_def)

lemma standard_marker_in_deep:
  assumes "m \<in> set standardMarkers"
  shows "sublist m (deepQuery sd c) \<longleftrightarrow> (\<exists>v \<in> set (deepInputs sd c). sublist m v)"
proof
  assume s: "sublist m (deepQuery sd c)"
  from assms deepLines_clear have m: "m \<noteq> []"
    and clear: "list_all (\<lambda>l. l \<noteq> [] \<and> \<not> touches m l) deepLines"
    by (auto simp: list_all_iff)
  from assms markers_starred have star: "CHR ''*'' \<in> set m"
    by (auto simp: list_all_iff)
  have n: "\<not> sublist m (toFixed 1 (avgHeading sd))" "\<not> sublist m []"
    using marker_not_in_plain [OF star toFixed_plain] m by simp_all
  from marker_in_gap [OF s [unfolded deepQuery_weave] m deepLines_length(1) clear] n
  show "\<exists>v \<in> set (deepInputs sd c). sublist m v"
    by (auto simp: deepInputs_def)
next
  assume "\<exists>v \<in> set (deepInputs sd c). sublist m v"
  then obtain v where v: "v \<in> set (deepInputs sd c)" and s: "sublist m v" by blast
  have "sublist v (deepQuery sd c)"
    unfolding deepQuery_weave
    by (rule text_in_weave(1)) (use v in \<open>auto simp: deepLines_length deepInputs_def\<close>)
  with s show "sublist m (deepQuery sd c)"
    by (rule sublist_trans)
qed

lemma deep_marker_in_standard:
  assumes "m \<in> set deepMarkers"
  shows "sublist m (standardQuery sd c) \<longleftrightarrow> (\<exists>v \<in> set (standardInputs sd c). sublist m v)"
proof
  assume s: "sublist m (standardQuery sd c)"
  from assms standardLines_clear have m: "m \<noteq> []"
    and clear: "list_all (\<lambda>l. l \<noteq> [] \<and> \<not> touches m l) standardLines"
    by (auto simp: list_all_iff)
  from assms markers_starred have star: "CHR ''*'' \<in> set m"
    by (auto simp: list_all_iff)
  have n: "\<not> sublist m (toFixed 1 (avgHeading sd))" "\<not> sublist m []"
    using marker_not_in_plain [OF star toFixed_plain] m by simp_all
  from marker_in_gap [OF s [unfolded standardQuery_weave] m standardLines_length(1) clear] n
  show "\<exists>v \<in> set (standardInputs sd c). sublist m v"
    by (auto simp: standardInputs_def deepInputs_def)
next
  assume "\<exists>v \<in> set (standardInputs sd c). sublist m v"
  then obtain v where v: "v \<in> set (standardInputs sd c)" and s: "sublist m v" by blast
  have "sublist v (standardQuery sd c)"
    unfolding standardQuery_weave
    by (rule text_in_weave(1))
       (use v in \<open>auto simp: standardLines_length standardInputs_def deepInputs_def\<close>)
  with s show "sublist m (standardQuery sd c)"
    by (rule sublist_trans)
qed

lemma own_markers:
  "m \<in> set deepMarkers \<Longrightarrow> sublist m (deepQuery sd c)"
  "m \<in> set standardMarkers \<Longrightarrow> sublist m (standardQuery sd c)"
proof -
  assume "m \<in> set deepMarkers"
  with deepLines_own obtain l where l: "l \<in> set deepLines" and s: "sublist m l"
    by (auto simp: list_all_iff list_ex_iff)
  have "sublist l (deepQuery sd c)"
    unfolding deepQuery_weave
    by (rule text_in_weave(2)) (use l in \<open>simp_all add: deepLines_length\<close>)
  with s show "sublist m (deepQuery sd c)"
    by (rule sublist_trans)
next
  assume "m \<in> set standardMarkers"
  with standardLines_own obtain l where l: "l \<in> set standardLines" and s: "sublist m l"
    by (auto simp: list_all_iff list_ex_iff)
  have "sublist l (standardQuery sd c)"
    unfolding standardQuery_weave
    by (rule text_in_weave(2)) (use l in \<open>simp_all add: standardLines_length\<close>)
  with s show "sublist m (standardQuery sd c)"
    by (rule sublist_trans)
qed

section \<open>The two templates keep apart\<close>

text \<open>
  Claim C6, as the code has it. The claim says that for every scan and every core
  assessment the deep-analysis text never contains a section marker of the standard
  mode. The core assessment is copied into the text as it is, so an assessment that
  quotes such a marker brings it along.
\<close>

theorem quoted_marker_counterexample:
  "''**III. Analysis of Vastu Compliance**'' \<in> set standardMarkers
   \<and> getAiQuery (sampleScan sampleFrames) True (Str ''**III. Analysis of Vastu Compliance**'')
       = Inr (deepQuery (sampleScan sampleFrames) ''**III. Analysis of Vastu Compliance**'')
   \<and> sublist ''**III. Analysis of Vastu Compliance**''
        (deepQuery (sampleScan sampleFrames) ''**III. Analysis of Vastu Compliance**'')"
proof -
  have m: "''**III. Analysis of Vastu Compliance**'' \<in> set standardMarkers"
    by (simp add: standardMarkers_def)
  have "''**III. Analysis of Vastu Compliance**''
          \<in> set (deepInputs (sampleScan sampleFrames) ''**III. Analysis of Vastu Compliance**'')"
    by (simp add: deepInputs_def)
  then have "sublist ''**III. Analysis of Vastu Compliance**''
               (deepQuery (sampleScan sampleFrames) ''**III. Analysis of Vastu Compliance**'')"
    using standard_marker_in_deep [OF m] sublist_here [of "''**III. Analysis of Vastu Compliance**''" "[]"]
    by (simp only: append_Nil2) blast
  with m show ?thesis
    by (simp add: getAiQuery_def)
qed

text \<open>
  Claim C6, amended. For a single value of \<open>isDeepAnalysis\<close>, \<open>getAiQuery\<close> emits
  exactly one of the two templates, and each template carries its own bold markers:
  the deep one its title and two subsection titles, the standard one its five section
  titles. A section marker of the other mode occurs in the emitted text only when one
  of the texts copied into it (the core assessment, the room tag, the location and
  floor as shown, the concerns, the surroundings, the zones text) itself contains that
  marker, and then it does occur; the fixed text of a template never supplies one, not
  even together with the beginning or end of a copied text.
\<close>

theorem marker_only_from_inputs:
  "(m \<in> set standardMarkers \<longrightarrow>
      (sublist m (deepQuery sd c) \<longleftrightarrow> (\<exists>v \<in> set (deepInputs sd c). sublist m v)))
   \<and> (m \<in> set deepMarkers \<longrightarrow>
      (sublist m (standardQuery sd c) \<longleftrightarrow> (\<exists>v \<in> set (standardInputs sd c). sublist m v)))
   \<and> (\<forall>m \<in> set deepMarkers. sublist m (deepQuery sd c))
   \<and> (\<forall>m \<in> set standardMarkers. sublist m (standardQuery sd c))
   \<and> getAiQuery sd deep (Str c) = Inr (if deep then deepQuery sd c else standardQuery sd c)"
  using standard_marker_in_deep [of m sd c] deep_marker_in_standard [of m sd c]
    own_markers [of _ sd c]
  by (simp add: getAiQuery_def)

lemma sample_inputs_clear:
  "\<not> list_ex (sublist ''**III. Analysis of Vastu Compliance**'')
       (deepInputs (sampleScan sampleFrames) corePlaceholder)"
  "\<not> list_ex (sublist ''**Minor Structural Recommendations**'')
       (standardInputs (sampleScan sampleFrames) corePlaceholder)"
  by code_simp+

theorem marker_only_from_inputs_witness:
  "''**III. Analysis of Vastu Compliance**'' \<in> set standardMarkers
   \<and> ''**Minor Structural Recommendations**'' \<in> set deepMarkers
   \<and> \<not> sublist ''**III. Analysis of Vastu Compliance**''
         (deepQuery (sampleScan sampleFrames) corePlaceholder)
   \<and> \<not> sublist ''**Minor Structural Recommendations**''
         (standardQuery (sampleScan sampleFrames) corePlaceholder)
   \<and> sublist ''**Minor Structural Recommendations**''
         (deepQuery (sampleScan sampleFrames) corePlaceholder)"
proof -
  have m: "''**III. Analysis of Vastu Compliance**'' \<in> set standardMarkers"
    "''**Minor Structural Recommendations**'' \<in> set deepMarkers"
    by (simp_all add: standardMarkers_def deepMarkers_def)
  note a = marker_only_from_inputs
    [of "''**III. Analysis of Vastu Compliance**''" "sampleScan sampleFrames" corePlaceholder]
  note b = marker_only_from_inputs
    [of "''**Minor Structural Recommendations**''" "sampleScan sampleFrames" corePlaceholder]
  from a m(1) sample_inputs_clear(1)
  have 1: "\<not> sublist ''**III. Analysis of Vastu Compliance**''
             (deepQuery (sampleScan sampleFrames) corePlaceholder)"
    by (simp add: list_ex_iff)
  from b m(2) sample_inputs_clear(2)
  have 2: "\<not> sublist ''**Minor Structural Recommendations**''
             (standardQuery (sampleScan sampleFrames) corePlaceholder)"
    by (simp add: list_ex_iff)
  from b m(2)
  have 3: "sublist ''**Minor Structural Recommendations**''
             (deepQuery (sampleScan sampleFrames) corePlaceholder)"
    by blast
  from m 1 2 3 show ?thesis by blast
qed

end
